theory Spec2Isabelle
  imports Main "HOL-Library.Sublist"
begin

section \<open>Python strings\<close>

text \<open>
  A Python \<open>str\<close> is modelled as a \<open>string\<close>: the list of the bytes of its UTF-8
  encoding. The characters outside ASCII that occur in the reply templates of
  \<open>main.py\<close> are written as their UTF-8 bytes.

  \<open>str.lower()\<close> is modelled on the ASCII letters, which it maps \<open>A\<close>..\<open>Z\<close> to
  \<open>a\<close>..\<open>z\<close>; every other byte is kept. The handlers compare the lowered text only with
  \<open>no\<close>, \<open>none\<close>, \<open>n\<close>, \<open>http://\<close> and \<open>https://\<close>, and Python's lowering maps
  no character outside ASCII to one of the characters of these five strings.
\<close>

definition lower_char :: "char \<Rightarrow> char" where
  "lower_char c =
     (case map_of (zip ''ABCDEFGHIJKLMNOPQRSTUVWXYZ'' ''abcdefghijklmnopqrstuvwxyz'') c of
        Some d \<Rightarrow> d
      | None \<Rightarrow> c)"

definition lower :: "string \<Rightarrow> string" where
  "lower s = map lower_char s"

text \<open>\<open>s.startswith((p1, p2, ...))\<close>: some element of the tuple is a prefix of \<open>s\<close>.\<close>

definition startswith :: "string \<Rightarrow> string list \<Rightarrow> bool" where
  "startswith s ps = list_ex (\<lambda>p. prefix p s) ps"

text \<open>\<open>str(n)\<close> of an integer, as the f-string \<open>{user.id}\<close> formats it.\<close>

function str_nat :: "nat \<Rightarrow> string" where
  "str_nat n =
     (if n < 10 then [''0123456789'' ! n]
      else str_nat (n div 10) @ [''0123456789'' ! (n mod 10)])"
  by pat_completeness auto
termination
  by (relation "measure id") auto

declare str_nat.simps [simp del]

definition str_int :: "int \<Rightarrow> string" where
  "str_int i = (if i < 0 then ''-'' @ str_nat (nat (- i)) else str_nat (nat i))"

section \<open>Telegram objects and the outside world\<close>

text \<open>
  \<open>message.from_user\<close> and \<open>message\<close>, with the attributes the handlers read.
  \<open>user_id\<close> is \<open>from_user.id\<close>, \<open>message_text\<close> is \<open>message.text\<close>, and
  \<open>photo\<close> lists the \<open>file_id\<close> of each size in \<open>message.photo\<close>.
\<close>

record user =
  user_id :: int
  first_name :: string
  last_name :: "string option"
  username :: "string option"

record message =
  from_user :: user
  chat_id :: int
  message_text :: string
  photo :: "string list"

text \<open>\<open>types.ReplyKeyboardMarkup(resize_keyboard, one_time_keyboard)\<close> with its buttons.\<close>

datatype markup = ReplyKeyboardMarkup bool bool "string list"

datatype photo_arg = FileId string | BytesIO string

text \<open>
  The calls a handler makes to the outside: \<open>bot.send_message(chat_id, text,
  reply_markup, parse_mode)\<close>, \<open>bot.send_photo(chat_id, photo, caption)\<close>,
  \<open>requests.get(url)\<close> and \<open>logger.error(msg)\<close>.
\<close>

datatype call =
    SendMessage int string "markup option" "string option"
  | SendPhoto int photo_arg string
  | RequestsGet string
  | LoggerError string

record response =
  status_code :: int
  content :: string

text \<open>
  The exceptions of the model: a missing \<open>user_data[user_id]\<close>, \<open>message.photo[-1]\<close> on
  an empty list, and a failure raised by an outside call, with its description.
\<close>

datatype exn = KeyError int | IndexError | External string

fun str_exn :: "exn \<Rightarrow> string" where
  "str_exn (KeyError k) = str_int k"
| "str_exn IndexError = ''list index out of range''"
| "str_exn (External x) = x"

text \<open>
  The environment of one handler run. \<open>ADMIN_USER_ID\<close> is read from the process
  environment. \<open>bot_result k c\<close> is what the Telegram call \<open>c\<close> does when it is the
  outside call number \<open>k\<close> of the trace: \<open>None\<close> when it is delivered, \<open>Some x\<close> when it
  raises an exception described by \<open>x\<close>. \<open>requests_get url\<close> raises (\<open>Inl\<close>) or returns
  a response.
\<close>

record env =
  ADMIN_USER_ID :: int
  bot_result :: "nat \<Rightarrow> call \<Rightarrow> string option"
  requests_get :: "string \<Rightarrow> string + response"

text \<open>
  The module's two global dictionaries, and the trace of the outside calls attempted so
  far, each with the failure it raised, if any.
\<close>

record world =
  user_states :: "int \<rightharpoonup> int"
  user_data :: "int \<rightharpoonup> (string \<rightharpoonup> string)"
  calls :: "(call \<times> string option) list"

definition STATE_QUESTION :: int where "STATE_QUESTION = 1"
definition STATE_DESCRIPTION :: int where "STATE_DESCRIPTION = 2"
definition STATE_IMAGE :: int where "STATE_IMAGE = 3"

text \<open>
  A statement either completes (\<open>None\<close>) or raises; the world it leaves behind is kept in
  both cases, as a Python exception does not undo the assignments made before it.
\<close>

type_synonym outcome = "exn option \<times> world"

definition and_then :: "outcome \<Rightarrow> (world \<Rightarrow> outcome) \<Rightarrow> outcome" where
  "and_then r f = (case r of (None, w) \<Rightarrow> f w | (Some x, w) \<Rightarrow> (Some x, w))"

definition bot_call :: "env \<Rightarrow> call \<Rightarrow> world \<Rightarrow> outcome" where
  "bot_call e c w =
     (case bot_result e (length (calls w)) c of
        None \<Rightarrow> (None, w\<lparr>calls := calls w @ [(c, None)]\<rparr>)
      | Some x \<Rightarrow> (Some (External x), w\<lparr>calls := calls w @ [(c, Some x)]\<rparr>))"

definition logger_error :: "string \<Rightarrow> world \<Rightarrow> outcome" where
  "logger_error msg w = (None, w\<lparr>calls := calls w @ [(LoggerError msg, None)]\<rparr>)"

text \<open>\<open>user_data[user_id][key] = v\<close>: a \<open>KeyError\<close> when \<open>user_id\<close> has no entry.\<close>

definition set_user_data :: "int \<Rightarrow> string \<Rightarrow> string \<Rightarrow> world \<Rightarrow> outcome" where
  "set_user_data uid key v w =
     (case user_data w uid of
        None \<Rightarrow> (Some (KeyError uid), w)
      | Some d \<Rightarrow> (None, w\<lparr>user_data := (user_data w)(uid \<mapsto> d(key \<mapsto> v))\<rparr>))"

text \<open>The two guarded \<open>del\<close> statements that end \<open>cancel\<close> and \<open>finalize_question\<close>.\<close>

definition clear_user :: "int \<Rightarrow> world \<Rightarrow> world" where
  "clear_user uid w =
     w\<lparr>user_states := (user_states w)(uid := None), user_data := (user_data w)(uid := None)\<rparr>"

section \<open>Reply templates\<close>

definition sendspark_markup :: markup where
  "sendspark_markup = ReplyKeyboardMarkup True False [''/sendspark'']"

definition welcome_message :: "string \<Rightarrow> string" where
  "welcome_message name =
     ''Hey '' @ name @ '', welcome to Trepa Bot! '' @
     [CHR 0xE2, CHR 0x9A, CHR 0xA1, CHR 0xEF, CHR 0xB8, CHR 0x8F] @
     ''\<newline>\<newline>Trepa is the world's first sentiment prediction platform powered by *prediction pools*, not markets.\<newline>\<newline> Got a question burning in your head? Use /sendspark to submit a *spark* '' @
     [CHR 0xE2, CHR 0x80, CHR 0x94] @
     '' our experts will decode the collective signal behind it.\<newline>\<newline>Let'' @
     [CHR 0xE2, CHR 0x80, CHR 0x99] @
     ''s make your curiosity count. '' @
     [CHR 0xE2, CHR 0x9C, CHR 0xA8]"

definition help_text :: string where
  "help_text =
     [CHR 0xF0, CHR 0x9F, CHR 0x9B, CHR 0xA0] @
     '' *Need help?* Here's how to use Trepa Bot:\<newline>\<newline>'' @
     [CHR 0xE2, CHR 0x80, CHR 0xA2] @ '' /start '' @ [CHR 0xE2, CHR 0x80, CHR 0x93] @
     '' Introduction to Trepa and what this bot can do\<newline>'' @
     [CHR 0xE2, CHR 0x80, CHR 0xA2] @ '' /sendspark '' @ [CHR 0xE2, CHR 0x80, CHR 0x93] @
     '' Submit a *spark* (your thought-provoking question)\<newline>'' @
     [CHR 0xE2, CHR 0x80, CHR 0xA2] @ '' /cancel '' @ [CHR 0xE2, CHR 0x80, CHR 0x93] @
     '' Stop the current spark submission\<newline>'' @
     [CHR 0xE2, CHR 0x80, CHR 0xA2] @ '' /help '' @ [CHR 0xE2, CHR 0x80, CHR 0x93] @
     '' See this guide again\<newline>\<newline>*What'' @ [CHR 0xE2, CHR 0x80, CHR 0x99] @
     ''s a spark?*\<newline>It'' @ [CHR 0xE2, CHR 0x80, CHR 0x99] @
     ''s a signal you send to Trepa'' @ [CHR 0xE2, CHR 0x80, CHR 0x99] @
     ''s prediction pool '' @ [CHR 0xE2, CHR 0x80, CHR 0x94] @
     '' a hypothesis, a trend, a social whisper. We help distill sentiment from it and surface insights before they go mainstream.\<newline>\<newline>When you use /sendspark, I'' @
     [CHR 0xE2, CHR 0x80, CHR 0x99] @
     ''ll ask:\<newline>1. Your question\<newline>2. Some background/context\<newline>3. (Optional) An image or link that captures the vibe\<newline>\<newline>Let'' @
     [CHR 0xE2, CHR 0x80, CHR 0x99] @
     ''s turn collective sentiment into superpowers. '' @
     [CHR 0xF0, CHR 0x9F, CHR 0x94, CHR 0xAE]"

definition ask_question_text :: string where
  "ask_question_text =
     ''Let's ignite a spark. '' @ [CHR 0xF0, CHR 0x9F, CHR 0x94, CHR 0xA5] @
     ''\<newline>\<newline>What'' @ [CHR 0xE2, CHR 0x80, CHR 0x99] @
     ''s your question or hypothesis?\<newline>\<newline>Note: Trepa isn'' @
     [CHR 0xE2, CHR 0x80, CHR 0x99] @
     ''t a fortune-teller. Avoid asking us to *predict the future*. Instead, focus on ideas, trends, or moments where public sentiment might be shifting.''"

definition cancelled_text :: string where
  "cancelled_text =
     ''No worries '' @ [CHR 0xE2, CHR 0x80, CHR 0x94] @
     '' your spark submission has been cancelled. '' @
     [CHR 0xF0, CHR 0x9F, CHR 0x94, CHR 0x95] @
     ''\<newline>\<newline>You can always light another one with /sendspark whenever inspiration strikes.''"

definition use_sendspark_text :: string where
  "use_sendspark_text = ''To submit a question, please use the /sendspark command.''"

definition ask_description_text :: string where
  "ask_description_text =
     ''Great question! '' @ [CHR 0xF0, CHR 0x9F, CHR 0x93, CHR 0x8C] @
     ''\<newline>\<newline>Now give us a bit more context '' @ [CHR 0xE2, CHR 0x80, CHR 0x94] @
     '' where'' @ [CHR 0xE2, CHR 0x80, CHR 0x99] @
     ''s this coming from? A tweet? A trend? A gut feeling?\<newline>Tell us what inspired the spark.''"

definition ask_image_text :: string where
  "ask_image_text =
     ''Thanks for the background! '' @ [CHR 0xF0, CHR 0x9F, CHR 0xA7, CHR 0xA0] @
     ''\<newline>\<newline>Do you have an image or screenshot that captures the essence of this spark?\<newline>\<newline>Drop the image link here (or upload a photo). If not, just type 'no'.''"

definition use_sendspark_first_text :: string where
  "use_sendspark_first_text =
     ''To submit a question with an image, please use the /sendspark command first.''"

definition not_expecting_image_text :: string where
  "not_expecting_image_text =
     ''I wasn't expecting an image at this point. Please follow the prompts.''"

definition submitted_text :: string where
  "submitted_text =
     [CHR 0xF0, CHR 0x9F, CHR 0xA7, CHR 0xA0] @
     '' Thanks! Your question has been submitted to Trepa HQ.\<newline>\<newline>We'' @
     [CHR 0xE2, CHR 0x80, CHR 0x99] @
     ''ll use it to spark community sentiment. If it fits, it may show up on Trepa soon for others to weigh in.\<newline>\<newline>Want to ask another one? Hit /sendspark anytime!''"

section \<open>The handlers of \<open>main.py\<close>\<close>

definition start :: "env \<Rightarrow> message \<Rightarrow> world \<Rightarrow> outcome" where
  "start e message w =
     bot_call e
       (SendMessage (chat_id message) (welcome_message (first_name (from_user message)))
          (Some sendspark_markup) (Some ''Markdown'')) w"

definition help_command :: "env \<Rightarrow> message \<Rightarrow> world \<Rightarrow> outcome" where
  "help_command e message w =
     bot_call e (SendMessage (chat_id message) help_text None (Some ''Markdown'')) w"

definition send_spark :: "env \<Rightarrow> message \<Rightarrow> world \<Rightarrow> outcome" where
  "send_spark e message w =
     (let uid = user_id (from_user message);
          w1 = w\<lparr>user_states := (user_states w)(uid \<mapsto> STATE_QUESTION)\<rparr>;
          w2 = w1\<lparr>user_data := (user_data w1)(uid \<mapsto> Map.empty)\<rparr>
      in bot_call e (SendMessage (chat_id message) ask_question_text None None) w2)"

definition cancel :: "env \<Rightarrow> message \<Rightarrow> world \<Rightarrow> outcome" where
  "cancel e message w =
     bot_call e (SendMessage (chat_id message) cancelled_text (Some sendspark_markup) None)
       (clear_user (user_id (from_user message)) w)"

text \<open>
  Lines 209 to 224 of \<open>finalize_question\<close>: the text for the admin, from the sender and
  the fields \<open>d = user_data[user_id]\<close>.
\<close>

definition admin_message_text :: "user \<Rightarrow> (string \<rightharpoonup> string) \<Rightarrow> bool \<Rightarrow> string" where
  "admin_message_text u d has_additional_info =
     (let question_text =
            (case d ''question'' of Some q \<Rightarrow> q | None \<Rightarrow> ''No question provided'');
          description_text =
            (case d ''description'' of Some x \<Rightarrow> x | None \<Rightarrow> ''No description provided'');
          admin_message =
            [CHR 0xF0, CHR 0x9F, CHR 0x8C, CHR 0x9F] @ '' NEW SPARK RECEIVED '' @
            [CHR 0xF0, CHR 0x9F, CHR 0x8C, CHR 0x9F] @ ''\<newline>\<newline>User: '' @
            first_name u @ '' '' @
            (case last_name u of
               Some l \<Rightarrow> if l \<noteq> [] then '' '' @ l else []
             | None \<Rightarrow> []) @
            '' (@'' @
            (case username u of
               Some n \<Rightarrow> if n \<noteq> [] then n else ''no username''
             | None \<Rightarrow> ''no username'') @
            '')\<newline>User ID: '' @ str_int (user_id u) @
            ''\<newline>\<newline>Question: '' @ question_text @
            ''\<newline>\<newline>Description/Source: '' @ description_text
      in if has_additional_info
         then (case d ''additional_info'' of
                 Some a \<Rightarrow> admin_message @ ''\<newline>\<newline>Additional Info: '' @ a
               | None \<Rightarrow> admin_message)
         else admin_message)"

text \<open>
  Lines 241 to 251, the body of the \<open>try\<close> block: download the image and send it, or
  send the text when the status is not 200.
\<close>

definition download_and_send :: "env \<Rightarrow> string \<Rightarrow> string \<Rightarrow> world \<Rightarrow> outcome" where
  "download_and_send e admin_message image_url w =
     (case requests_get e image_url of
        Inl x \<Rightarrow>
          (Some (External x), w\<lparr>calls := calls w @ [(RequestsGet image_url, Some x)]\<rparr>)
      | Inr response \<Rightarrow>
          (let w1 = w\<lparr>calls := calls w @ [(RequestsGet image_url, None)]\<rparr>
           in if status_code response = 200
              then bot_call e
                     (SendPhoto (ADMIN_USER_ID e) (BytesIO (content response)) admin_message)
                     w1
              else bot_call e (SendMessage (ADMIN_USER_ID e) admin_message None None) w1))"

text \<open>
  Lines 239 to 255: whatever the \<open>try\<close> block raises is caught, logged, and answered by
  sending the text.
\<close>

definition send_url_image :: "env \<Rightarrow> string \<Rightarrow> string \<Rightarrow> world \<Rightarrow> outcome" where
  "send_url_image e admin_message image_url w =
     (case download_and_send e admin_message image_url w of
        (None, w2) \<Rightarrow> (None, w2)
      | (Some x, w2) \<Rightarrow>
          and_then (logger_error (''Error downloading image: '' @ str_exn x) w2)
            (bot_call e (SendMessage (ADMIN_USER_ID e) admin_message None None)))"

text \<open>Lines 226 to 258: the branch on \<open>image_id\<close>, then \<open>image_url\<close>, then neither.\<close>

definition notify_admin :: "env \<Rightarrow> (string \<rightharpoonup> string) \<Rightarrow> string \<Rightarrow> world \<Rightarrow> outcome" where
  "notify_admin e d admin_message w =
     (case d ''image_id'' of
        Some image_id \<Rightarrow>
          bot_call e (SendPhoto (ADMIN_USER_ID e) (FileId image_id) admin_message) w
      | None \<Rightarrow>
          (case d ''image_url'' of
             Some image_url \<Rightarrow>
               send_url_image e (admin_message @ ''\<newline>\<newline>Image URL: '' @ image_url)
                 image_url w
           | None \<Rightarrow> bot_call e (SendMessage (ADMIN_USER_ID e) admin_message None None) w))"

text \<open>
  \<open>finalize_question\<close>. Line 209 reads \<open>user_data[user_id]\<close> and raises \<open>KeyError\<close> when
  it is missing. The parameter \<open>has_image\<close> is not read by the body.
\<close>

definition finalize_question ::
  "env \<Rightarrow> message \<Rightarrow> int \<Rightarrow> bool \<Rightarrow> bool \<Rightarrow> world \<Rightarrow> outcome" where
  "finalize_question e message uid has_image has_additional_info w =
     (case user_data w uid of
        None \<Rightarrow> (Some (KeyError uid), w)
      | Some d \<Rightarrow>
          and_then
            (notify_admin e d (admin_message_text (from_user message) d has_additional_info) w)
            (\<lambda>w1. and_then
               (bot_call e
                  (SendMessage (chat_id message) submitted_text (Some sendspark_markup) None) w1)
               (\<lambda>w2. (None, clear_user uid w2))))"

definition handle_messages :: "env \<Rightarrow> message \<Rightarrow> world \<Rightarrow> outcome" where
  "handle_messages e message w =
     (let uid = user_id (from_user message) in
      case user_states w uid of
        None \<Rightarrow>
          bot_call e
            (SendMessage (chat_id message) use_sendspark_text (Some sendspark_markup) None) w
      | Some state \<Rightarrow>
          if state = STATE_QUESTION then
            and_then (set_user_data uid ''question'' (message_text message) w)
              (\<lambda>w1. bot_call e (SendMessage (chat_id message) ask_description_text None None)
                  (w1\<lparr>user_states := (user_states w1)(uid \<mapsto> STATE_DESCRIPTION)\<rparr>))
          else if state = STATE_DESCRIPTION then
            and_then (set_user_data uid ''description'' (message_text message) w)
              (\<lambda>w1. bot_call e (SendMessage (chat_id message) ask_image_text None None)
                  (w1\<lparr>user_states := (user_states w1)(uid \<mapsto> STATE_IMAGE)\<rparr>))
          else if state = STATE_IMAGE then
            (let text = lower (message_text message) in
             if text \<in> set [''no'', ''none'', ''n''] then
               finalize_question e message uid False False w
             else if startswith text [''http://'', ''https://''] then
               and_then (set_user_data uid ''image_url'' (message_text message) w)
                 (finalize_question e message uid True False)
             else
               and_then (set_user_data uid ''additional_info'' (message_text message) w)
                 (finalize_question e message uid False True))
          else (None, w))"

text \<open>
  \<open>handle_photo\<close>. \<open>message.photo[-1]\<close> is evaluated before the assignment and raises
  \<open>IndexError\<close> on an empty list.
\<close>

definition handle_photo :: "env \<Rightarrow> message \<Rightarrow> world \<Rightarrow> outcome" where
  "handle_photo e message w =
     (let uid = user_id (from_user message) in
      case user_states w uid of
        None \<Rightarrow>
          bot_call e
            (SendMessage (chat_id message) use_sendspark_first_text (Some sendspark_markup) None)
            w
      | Some state \<Rightarrow>
          if state = STATE_IMAGE then
            (case photo message of
               [] \<Rightarrow> (Some IndexError, w)
             | p # ps \<Rightarrow>
                 and_then (set_user_data uid ''image_id'' (last (p # ps)) w)
                   (finalize_question e message uid True False))
          else
            bot_call e (SendMessage (chat_id message) not_expecting_image_text None None) w)"

section \<open>Dispatch and runs\<close>

text \<open>
  The decorators route an incoming message to one handler: the four commands, any other
  text, or a photo. An update is the message with the handler it is routed to.
\<close>

datatype update =
    CommandStart message
  | CommandHelp message
  | CommandSendspark message
  | CommandCancel message
  | TextMessage message
  | PhotoMessage message

fun dispatch :: "env \<Rightarrow> update \<Rightarrow> world \<Rightarrow> outcome" where
  "dispatch e (CommandStart m) w = start e m w"
| "dispatch e (CommandHelp m) w = help_command e m w"
| "dispatch e (CommandSendspark m) w = send_spark e m w"
| "dispatch e (CommandCancel m) w = cancel e m w"
| "dispatch e (TextMessage m) w = handle_messages e m w"
| "dispatch e (PhotoMessage m) w = handle_photo e m w"

text \<open>
  The polling loop handles the updates one after the other. Each comes with the
  environment at its time. An exception that leaves a handler ends that handler only:
  the dictionaries keep what was assigned, and the next update is handled.
\<close>

fun run :: "world \<Rightarrow> (env \<times> update) list \<Rightarrow> world" where
  "run w [] = w"
| "run w ((e, u) # us) = run (snd (dispatch e u w)) us"

definition initial_world :: world where
  "initial_world = \<lparr>user_states = Map.empty, user_data = Map.empty, calls = []\<rparr>"

section \<open>Sample inputs\<close>

definition env_ok :: env where
  "env_ok =
     \<lparr>ADMIN_USER_ID = 1, bot_result = (\<lambda>k c. None),
      requests_get = (\<lambda>url. Inr \<lparr>status_code = 200, content = ''png''\<rparr>)\<rparr>"

text \<open>Telegram refuses every \<open>send_photo\<close>; every other call succeeds.\<close>

definition env_photo_fails :: env where
  "env_photo_fails =
     \<lparr>ADMIN_USER_ID = 1,
      bot_result = (\<lambda>k c. case c of SendPhoto _ _ _ \<Rightarrow> Some ''Bad Request'' | _ \<Rightarrow> None),
      requests_get = (\<lambda>url. Inr \<lparr>status_code = 200, content = ''png''\<rparr>)\<rparr>"

text \<open>The download times out; Telegram delivers every call.\<close>

definition env_fetch_fails :: env where
  "env_fetch_fails =
     \<lparr>ADMIN_USER_ID = 1, bot_result = (\<lambda>k c. None),
      requests_get = (\<lambda>url. Inl ''timed out'')\<rparr>"

text \<open>The download times out and Telegram is unreachable.\<close>

definition env_all_fail :: env where
  "env_all_fail =
     \<lparr>ADMIN_USER_ID = 1, bot_result = (\<lambda>k c. Some ''Bad Gateway''),
      requests_get = (\<lambda>url. Inl ''timed out'')\<rparr>"

definition ann :: user where
  "ann = \<lparr>user_id = 7, first_name = ''Ann'', last_name = None, username = None\<rparr>"

definition text_from_ann :: "string \<Rightarrow> message" where
  "text_from_ann body = \<lparr>from_user = ann, chat_id = 7, message_text = body, photo = []\<rparr>"

definition photo_from_ann :: message where
  "photo_from_ann =
     \<lparr>from_user = ann, chat_id = 7, message_text = [], photo = [''small'', ''large'']\<rparr>"

text \<open>Ann has answered the first two prompts; \<open>d\<close> is what \<open>user_data\<close> holds for her.\<close>

definition awaiting_image :: "(string \<rightharpoonup> string) \<Rightarrow> world" where
  "awaiting_image d =
     \<lparr>user_states = [7 \<mapsto> STATE_IMAGE], user_data = [7 \<mapsto> d], calls = []\<rparr>"

definition two_answers :: "string \<rightharpoonup> string" where
  "two_answers = [''question'' \<mapsto> ''Will X happen?'', ''description'' \<mapsto> ''saw it on a forum'']"

text \<open>Ann has just sent \<open>/sendspark\<close>.\<close>

definition awaiting_question :: world where
  "awaiting_question =
     \<lparr>user_states = [7 \<mapsto> STATE_QUESTION], user_data = [7 \<mapsto> Map.empty], calls = []\<rparr>"

text \<open>Ann sends \<open>/sendspark\<close>, her question and her description; every call succeeds.\<close>

definition two_answer_updates :: "(env \<times> update) list" where
  "two_answer_updates =
     [(env_ok, CommandSendspark (text_from_ann ''/sendspark'')),
      (env_ok, TextMessage (text_from_ann ''Will X happen?'')),
      (env_ok, TextMessage (text_from_ann ''saw it on a forum''))]"

text \<open>Telegram refuses every message to Ann's chat; every other call succeeds.\<close>

definition env_confirm_fails :: env where
  "env_confirm_fails =
     \<lparr>ADMIN_USER_ID = 1,
      bot_result =
        (\<lambda>k c. case c of
                 SendMessage chat _ _ _ \<Rightarrow> if chat = 7 then Some ''Forbidden'' else None
               | _ \<Rightarrow> None),
      requests_get = (\<lambda>url. Inr \<lparr>status_code = 200, content = ''png''\<rparr>)\<rparr>"

text \<open>After her two answers Ann uploads a photo, and Telegram refuses the \<open>send_photo\<close>.\<close>

definition refused_photo_updates :: "(env \<times> update) list" where
  "refused_photo_updates =
     two_answer_updates @ [(env_photo_fails, PhotoMessage photo_from_ann)]"

text \<open>
  After her two answers Ann sends a link; the image reaches the admin, and Telegram
  refuses the confirmation to Ann.
\<close>

definition unconfirmed_url_updates :: "(env \<times> update) list" where
  "unconfirmed_url_updates =
     two_answer_updates @ [(env_confirm_fails, TextMessage (text_from_ann ''http://x/y.png''))]"

section \<open>Predicates of the statements\<close>

fun is_send_photo :: "call \<Rightarrow> bool" where
  "is_send_photo (SendPhoto c p t) = True"
| "is_send_photo _ = False"

text \<open>The dictionaries of \<open>w'\<close> are those of \<open>w\<close>, or those of \<open>w\<close> without \<open>uid\<close>.\<close>

definition keeps_or_clears :: "int \<Rightarrow> world \<Rightarrow> world \<Rightarrow> bool" where
  "keeps_or_clears uid w w' \<longleftrightarrow>
     (user_states w' = user_states w \<and> user_data w' = user_data w) \<or>
     (user_states w' = (user_states w)(uid := None) \<and>
      user_data w' = (user_data w)(uid := None))"

text \<open>
  The fields a session holds in each state: none while the question is awaited, the
  question alone while the description is awaited, at least both while the image is
  awaited.
\<close>

definition fields_ok :: "int \<Rightarrow> (string \<rightharpoonup> string) \<Rightarrow> bool" where
  "fields_ok st d \<longleftrightarrow>
     st = STATE_QUESTION \<and> d = Map.empty \<or>
     st = STATE_DESCRIPTION \<and> dom d = {''question''} \<or>
     st = STATE_IMAGE \<and> {''question'', ''description''} \<subseteq> dom d"

definition session_ok :: "world \<Rightarrow> bool" where
  "session_ok w \<longleftrightarrow>
     (\<forall>uid st. user_states w uid = Some st \<longrightarrow>
        (\<exists>d. user_data w uid = Some d \<and> fields_ok st d))"

text \<open>No handler of the run raises.\<close>

fun raises_nothing :: "world \<Rightarrow> (env \<times> update) list \<Rightarrow> bool" where
  "raises_nothing w [] = True"
| "raises_nothing w ((e, u) # us) =
     (fst (dispatch e u w) = None \<and> raises_nothing (snd (dispatch e u w)) us)"

text \<open>
  The fields of a session none of whose handlers has raised: in state \<open>STATE_IMAGE\<close>
  the question and the description, and nothing else.
\<close>

definition exact_fields :: "int \<Rightarrow> (string \<rightharpoonup> string) \<Rightarrow> bool" where
  "exact_fields st d \<longleftrightarrow>
     st = STATE_QUESTION \<and> d = Map.empty \<or>
     st = STATE_DESCRIPTION \<and> dom d = {''question''} \<or>
     st = STATE_IMAGE \<and> dom d = {''question'', ''description''}"

definition sessions_exact :: "world \<Rightarrow> bool" where
  "sessions_exact w \<longleftrightarrow>
     (\<forall>uid st. user_states w uid = Some st \<longrightarrow>
        (\<exists>d. user_data w uid = Some d \<and> exact_fields st d))"

section \<open>What one outside call changes\<close>

lemma bot_call_store [simp]:
  "user_states (snd (bot_call e c w)) = user_states w"
  "user_data (snd (bot_call e c w)) = user_data w"
  "calls (snd (bot_call e c w)) = calls w @ [(c, bot_result e (length (calls w)) c)]"
  by (simp_all add: bot_call_def split: option.splits)

section \<open>The commands\<close>

text \<open>
  Claim C5. Whatever the dictionaries held before, and whether or not the reply can be
  sent, after \<open>send_spark\<close> the sender is in state \<open>STATE_QUESTION\<close> and the sender's
  fields are the empty dictionary.
\<close>

theorem send_spark_starts_fresh_session:
  "user_states (snd (send_spark e m w)) (user_id (from_user m)) = Some STATE_QUESTION \<and>
   user_data (snd (send_spark e m w)) (user_id (from_user m)) = Some Map.empty"
  by (simp add: send_spark_def Let_def)

text \<open>
  Claim C9. \<open>start\<close> and \<open>help_command\<close> leave both dictionaries as they were, for
  every user.
\<close>

theorem start_help_keep_store:
  "user_states (snd (start e m w)) = user_states w \<and>
   user_data (snd (start e m w)) = user_data w \<and>
   user_states (snd (help_command e m w)) = user_states w \<and>
   user_data (snd (help_command e m w)) = user_data w"
  by (simp add: start_def help_command_def)

section \<open>Messages without a session\<close>

text \<open>
  Claim C8. When the sender has no entry in \<open>user_states\<close>, a text message is answered
  by the one call that sends \<open>use_sendspark_text\<close>, a photo by the one call that sends
  \<open>use_sendspark_first_text\<close>, both with the \<open>/sendspark\<close> keyboard, and both
  dictionaries stay as they were, so the sender still has no session.
\<close>

theorem no_session_prompts_sendspark:
  assumes "user_states w (user_id (from_user m)) = None"
  shows "calls (snd (handle_messages e m w)) =
           calls w @
           [(SendMessage (chat_id m) use_sendspark_text (Some sendspark_markup) None,
             bot_result e (length (calls w))
               (SendMessage (chat_id m) use_sendspark_text (Some sendspark_markup) None))] \<and>
         user_states (snd (handle_messages e m w)) = user_states w \<and>
         user_data (snd (handle_messages e m w)) = user_data w \<and>
         calls (snd (handle_photo e m w)) =
           calls w @
           [(SendMessage (chat_id m) use_sendspark_first_text (Some sendspark_markup) None,
             bot_result e (length (calls w))
               (SendMessage (chat_id m) use_sendspark_first_text (Some sendspark_markup)
                  None))] \<and>
         user_states (snd (handle_photo e m w)) = user_states w \<and>
         user_data (snd (handle_photo e m w)) = user_data w"
  using assms by (simp add: handle_messages_def handle_photo_def Let_def)

theorem no_session_prompts_sendspark_witness:
  "user_states initial_world 7 = None \<and>
   calls (snd (handle_messages env_ok (text_from_ann ''hello'') initial_world)) =
     [(SendMessage 7 use_sendspark_text (Some sendspark_markup) None, None)] \<and>
   user_states (snd (handle_messages env_ok (text_from_ann ''hello'') initial_world)) 7 = None \<and>
   user_data (snd (handle_messages env_ok (text_from_ann ''hello'') initial_world)) 7 = None \<and>
   calls (snd (handle_photo env_ok photo_from_ann initial_world)) =
     [(SendMessage 7 use_sendspark_first_text (Some sendspark_markup) None, None)] \<and>
   user_states (snd (handle_photo env_ok photo_from_ann initial_world)) 7 = None"
  using no_session_prompts_sendspark [of initial_world "text_from_ann ''hello''" env_ok]
    no_session_prompts_sendspark [of initial_world photo_from_ann env_ok]
  by (simp add: initial_world_def text_from_ann_def photo_from_ann_def ann_def env_ok_def)

section \<open>The steps of \<open>finalize_question\<close>\<close>

lemma and_then_if: "and_then r f = (if fst r = None then f (snd r) else r)"
  by (cases r; cases "fst r") (auto simp: and_then_def)

lemma bot_call_fst [simp]:
  "fst (bot_call e c w) = map_option External (bot_result e (length (calls w)) c)"
  by (simp add: bot_call_def split: option.splits)

lemma logger_error_simps [simp]:
  "fst (logger_error msg w) = None"
  "user_states (snd (logger_error msg w)) = user_states w"
  "user_data (snd (logger_error msg w)) = user_data w"
  "calls (snd (logger_error msg w)) = calls w @ [(LoggerError msg, None)]"
  by (simp_all add: logger_error_def)

lemma send_url_image_if:
  "send_url_image e t url w =
     (if fst (download_and_send e t url w) = None then download_and_send e t url w
      else bot_call e (SendMessage (ADMIN_USER_ID e) t None None)
             (snd (logger_error
                (''Error downloading image: '' @ str_exn (the (fst (download_and_send e t url w))))
                (snd (download_and_send e t url w)))))"
  by (cases "download_and_send e t url w"; cases "fst (download_and_send e t url w)")
     (auto simp: send_url_image_def and_then_if)

lemma download_and_send_store [simp]:
  "user_states (snd (download_and_send e t url w)) = user_states w"
  "user_data (snd (download_and_send e t url w)) = user_data w"
  by (simp_all add: download_and_send_def Let_def split: sum.splits)

lemma send_url_image_store [simp]:
  "user_states (snd (send_url_image e t url w)) = user_states w"
  "user_data (snd (send_url_image e t url w)) = user_data w"
  by (simp_all add: send_url_image_if)

lemma notify_admin_store [simp]:
  "user_states (snd (notify_admin e d t w)) = user_states w"
  "user_data (snd (notify_admin e d t w)) = user_data w"
  by (simp_all add: notify_admin_def split: option.splits)

lemma finalize_question_Some:
  assumes "user_data w uid = Some d"
  shows "finalize_question e m uid hi ai w =
    (if fst (notify_admin e d (admin_message_text (from_user m) d ai) w) = None
     then (if fst (bot_call e (SendMessage (chat_id m) submitted_text (Some sendspark_markup) None)
                  (snd (notify_admin e d (admin_message_text (from_user m) d ai) w))) = None
           then (None, clear_user uid (snd (bot_call e (SendMessage (chat_id m) submitted_text (Some sendspark_markup) None)
                  (snd (notify_admin e d (admin_message_text (from_user m) d ai) w)))))
           else bot_call e (SendMessage (chat_id m) submitted_text (Some sendspark_markup) None)
                  (snd (notify_admin e d (admin_message_text (from_user m) d ai) w)))
     else notify_admin e d (admin_message_text (from_user m) d ai) w)"
  using assms by (simp add: finalize_question_def and_then_if)

lemma finalize_question_store:
  "keeps_or_clears uid w (snd (finalize_question e m uid hi ai w))"
proof (cases "user_data w uid")
  case None
  then show ?thesis by (simp add: finalize_question_def keeps_or_clears_def)
next
  case (Some d)
  show ?thesis
    unfolding finalize_question_Some [OF Some]
    by (simp add: keeps_or_clears_def clear_user_def)
qed

lemma finalize_question_calls:
  assumes "user_data w uid = Some d"
  shows "calls (snd (finalize_question e m uid hi ai w)) =
    calls (snd (notify_admin e d (admin_message_text (from_user m) d ai) w)) @
    (if fst (notify_admin e d (admin_message_text (from_user m) d ai) w) = None
     then [(SendMessage (chat_id m) submitted_text (Some sendspark_markup) None,
            bot_result e (length (calls (snd (notify_admin e d (admin_message_text (from_user m) d ai) w))))
             (SendMessage (chat_id m) submitted_text (Some sendspark_markup) None))]
     else [])"
  unfolding finalize_question_Some [OF assms] by (simp add: clear_user_def)

lemma send_url_image_fallback_calls:
  assumes "(\<exists>x. requests_get e url = Inl x) \<or>
           (\<exists>r. requests_get e url = Inr r \<and> status_code r \<noteq> 200)"
  shows "list_ex (\<lambda>c. fst c = SendMessage (ADMIN_USER_ID e) t None None)
           (drop (length (calls w)) (calls (snd (send_url_image e t url w)))) \<and>
         \<not> list_ex (\<lambda>c. is_send_photo (fst c))
           (drop (length (calls w)) (calls (snd (send_url_image e t url w))))"
  using assms
  by (auto simp: send_url_image_if download_and_send_def Let_def)

section \<open>Photos outside the image step\<close>

text \<open>
  Claim C4, as the code has it. A photo from a sender whose state is not \<open>STATE_IMAGE\<close>
  is answered by one call and changes neither dictionary. When the sender has a session,
  the reply is \<open>not_expecting_image_text\<close>; when the sender has none, the reply is
  \<open>use_sendspark_first_text\<close> with the \<open>/sendspark\<close> keyboard.
\<close>

theorem photo_outside_awaiting_image:
  fixes w :: world and m :: message and e :: env
  defines "reply \<equiv>
    (case user_states w (user_id (from_user m)) of
       None \<Rightarrow> SendMessage (chat_id m) use_sendspark_first_text (Some sendspark_markup) None
     | Some st \<Rightarrow> SendMessage (chat_id m) not_expecting_image_text None None)"
  assumes "user_states w (user_id (from_user m)) \<noteq> Some STATE_IMAGE"
  shows "calls (snd (handle_photo e m w)) =
           calls w @ [(reply, bot_result e (length (calls w)) reply)] \<and>
         user_states (snd (handle_photo e m w)) = user_states w \<and>
         user_data (snd (handle_photo e m w)) = user_data w"
  using assms by (simp add: handle_photo_def Let_def split: option.splits)

theorem photo_outside_awaiting_image_witness:
  "user_states awaiting_question 7 \<noteq> Some STATE_IMAGE \<and>
   calls (snd (handle_photo env_ok photo_from_ann awaiting_question)) =
     [(SendMessage 7 not_expecting_image_text None None, None)] \<and>
   user_states (snd (handle_photo env_ok photo_from_ann awaiting_question)) =
     user_states awaiting_question \<and>
   user_data (snd (handle_photo env_ok photo_from_ann awaiting_question)) =
     user_data awaiting_question"
  using photo_outside_awaiting_image [of awaiting_question photo_from_ann env_ok]
  by (simp add: awaiting_question_def photo_from_ann_def ann_def env_ok_def
      STATE_QUESTION_def STATE_IMAGE_def)

text \<open>
  With no session the reply to a photo is the \<open>/sendspark\<close> prompt, which is not the
  text about an unexpected image.
\<close>

theorem photo_without_session_counterexample:
  "user_states initial_world 7 = None \<and>
   calls (snd (handle_photo env_ok photo_from_ann initial_world)) =
     [(SendMessage 7 use_sendspark_first_text (Some sendspark_markup) None, None)] \<and>
   use_sendspark_first_text \<noteq> not_expecting_image_text"
  by (simp add: handle_photo_def initial_world_def photo_from_ann_def ann_def env_ok_def
      use_sendspark_first_text_def not_expecting_image_text_def)

section \<open>Finalizing a submission\<close>

lemma notify_admin_delivered:
  assumes msgs: "\<And>k chat txt mk pm. bot_result e k (SendMessage chat txt mk pm) = None"
    and photo: "\<And>k img cap. d ''image_id'' = Some img \<Longrightarrow>
                  bot_result e k (SendPhoto (ADMIN_USER_ID e) (FileId img) cap) = None"
  shows "fst (notify_admin e d t w) = None"
proof (cases "d ''image_id''")
  case (Some img)
  then show ?thesis using photo by (simp add: notify_admin_def)
next
  case None
  then show ?thesis
    using msgs by (simp add: notify_admin_def send_url_image_if split: option.splits)
qed

text \<open>
  Claim C1, as the code has it. \<open>finalize_question\<close> runs on a user with stored fields.
  When Telegram delivers every \<open>send_message\<close> and, if a photo reference is stored, the
  \<open>send_photo\<close> of that reference, the run raises nothing, its last call is the
  confirmation to the sender, delivered, and the sender's entries are removed from both
  dictionaries. A failed download, and a failed \<open>send_photo\<close> of the downloaded image,
  do not prevent this.
\<close>

theorem finalize_confirms_and_clears:
  assumes d: "user_data w uid = Some d"
    and msgs: "\<And>k chat txt mk pm. bot_result e k (SendMessage chat txt mk pm) = None"
    and photo: "\<And>k img cap. d ''image_id'' = Some img \<Longrightarrow>
                  bot_result e k (SendPhoto (ADMIN_USER_ID e) (FileId img) cap) = None"
  shows "fst (finalize_question e m uid hi ai w) = None \<and>
         last (calls (snd (finalize_question e m uid hi ai w))) =
           (SendMessage (chat_id m) submitted_text (Some sendspark_markup) None, None) \<and>
         user_states (snd (finalize_question e m uid hi ai w)) = (user_states w)(uid := None) \<and>
         user_data (snd (finalize_question e m uid hi ai w)) = (user_data w)(uid := None)"
proof -
  have "fst (notify_admin e d (admin_message_text (from_user m) d ai) w) = None"
    using msgs photo by (rule notify_admin_delivered)
  then show ?thesis
    unfolding finalize_question_Some [OF d]
    by (simp add: msgs clear_user_def)
qed

theorem finalize_confirms_and_clears_witness:
  "user_data (awaiting_image (two_answers(''image_url'' \<mapsto> ''http://x/y.png''))) 7 =
     Some (two_answers(''image_url'' \<mapsto> ''http://x/y.png'')) \<and>
   requests_get env_fetch_fails ''http://x/y.png'' = Inl ''timed out'' \<and>
   fst (finalize_question env_fetch_fails (text_from_ann ''http://x/y.png'') 7 True False
          (awaiting_image (two_answers(''image_url'' \<mapsto> ''http://x/y.png'')))) = None \<and>
   last (calls (snd (finalize_question env_fetch_fails (text_from_ann ''http://x/y.png'') 7
          True False (awaiting_image (two_answers(''image_url'' \<mapsto> ''http://x/y.png'')))))) =
     (SendMessage 7 submitted_text (Some sendspark_markup) None, None) \<and>
   user_states (snd (finalize_question env_fetch_fails (text_from_ann ''http://x/y.png'') 7
          True False (awaiting_image (two_answers(''image_url'' \<mapsto> ''http://x/y.png''))))) 7 =
     None \<and>
   user_data (snd (finalize_question env_fetch_fails (text_from_ann ''http://x/y.png'') 7
          True False (awaiting_image (two_answers(''image_url'' \<mapsto> ''http://x/y.png''))))) 7 =
     None"
  using finalize_confirms_and_clears [of
      "awaiting_image (two_answers(''image_url'' \<mapsto> ''http://x/y.png''))" 7
      "two_answers(''image_url'' \<mapsto> ''http://x/y.png'')" env_fetch_fails
      "text_from_ann ''http://x/y.png''" True False]
  by (simp add: awaiting_image_def env_fetch_fails_def text_from_ann_def)

text \<open>
  A stored photo reference whose \<open>send_photo\<close> is refused: the exception leaves
  \<open>finalize_question\<close> and \<open>handle_photo\<close>, no confirmation is sent and the session
  stays.
\<close>

theorem finalize_photo_send_fails_counterexample:
  "finalize_question env_photo_fails photo_from_ann 7 True False
     (awaiting_image (two_answers(''image_id'' \<mapsto> ''large''))) =
   (Some (External ''Bad Request''),
    \<lparr>user_states = [7 \<mapsto> STATE_IMAGE],
     user_data = [7 \<mapsto> two_answers(''image_id'' \<mapsto> ''large'')],
     calls = [(SendPhoto 1 (FileId ''large'')
                (admin_message_text ann (two_answers(''image_id'' \<mapsto> ''large'')) False),
               Some ''Bad Request'')]\<rparr>) \<and>
   handle_photo env_photo_fails photo_from_ann (awaiting_image two_answers) =
   (Some (External ''Bad Request''),
    \<lparr>user_states = [7 \<mapsto> STATE_IMAGE],
     user_data = [7 \<mapsto> two_answers(''image_id'' \<mapsto> ''large'')],
     calls = [(SendPhoto 1 (FileId ''large'')
                (admin_message_text ann (two_answers(''image_id'' \<mapsto> ''large'')) False),
               Some ''Bad Request'')]\<rparr>)"
  by (simp add: handle_photo_def set_user_data_def finalize_question_def notify_admin_def
      bot_call_def and_then_def Let_def awaiting_image_def env_photo_fails_def
      photo_from_ann_def ann_def two_answers_def)

text \<open>
  Claim C2, as the code has it. The fields hold an image URL and no photo reference, and
  the download raises or returns a status other than 200. Then \<open>finalize_question\<close>
  attempts a \<open>send_message\<close> to the admin whose text ends with the URL, attempts no
  \<open>send_photo\<close>, and, when Telegram delivers every \<open>send_message\<close>, raises nothing.
\<close>

theorem url_fetch_failure_falls_back_to_text:
  assumes d: "user_data w uid = Some d"
    and no_photo: "d ''image_id'' = None"
    and url: "d ''image_url'' = Some url"
    and fetch: "(\<exists>x. requests_get e url = Inl x) \<or>
                (\<exists>r. requests_get e url = Inr r \<and> status_code r \<noteq> 200)"
  shows "list_ex
           (\<lambda>c. fst c =
              SendMessage (ADMIN_USER_ID e)
                (admin_message_text (from_user m) d ai @ ''\<newline>\<newline>Image URL: '' @ url)
                None None)
           (drop (length (calls w)) (calls (snd (finalize_question e m uid hi ai w)))) \<and>
         \<not> list_ex (\<lambda>c. is_send_photo (fst c))
           (drop (length (calls w)) (calls (snd (finalize_question e m uid hi ai w)))) \<and>
         ((\<forall>k chat txt mk pm. bot_result e k (SendMessage chat txt mk pm) = None) \<longrightarrow>
            fst (finalize_question e m uid hi ai w) = None)"
proof -
  let ?t = "admin_message_text (from_user m) d ai @ ''\<newline>\<newline>Image URL: '' @ url"
  let ?a = "admin_message_text (from_user m) d ai"
  have n: "notify_admin e d ?a w = send_url_image e ?t url w"
    using no_photo url by (simp add: notify_admin_def)
  have len: "length (calls w) \<le> length (calls (snd (send_url_image e ?t url w)))"
    by (simp add: send_url_image_if download_and_send_def Let_def split: sum.splits)
  have ok: "fst (finalize_question e m uid hi ai w) = None"
    if "\<forall>k chat txt mk pm. bot_result e k (SendMessage chat txt mk pm) = None"
    using that fetch unfolding finalize_question_Some [OF d] n
    by (auto simp: send_url_image_if download_and_send_def Let_def)
  have dr: "drop (length (calls w)) (calls (snd (finalize_question e m uid hi ai w))) =
      drop (length (calls w)) (calls (snd (send_url_image e ?t url w))) @
      (if fst (send_url_image e ?t url w) = None
       then [(SendMessage (chat_id m) submitted_text (Some sendspark_markup) None,
            bot_result e (length (calls (snd (send_url_image e ?t url w))))
             (SendMessage (chat_id m) submitted_text (Some sendspark_markup) None))]
       else [])"
    unfolding finalize_question_calls [OF d] n using len by simp
  have a: "list_ex (\<lambda>c. fst c = SendMessage (ADMIN_USER_ID e) ?t None None)
           (drop (length (calls w)) (calls (snd (finalize_question e m uid hi ai w))))"
    unfolding dr using send_url_image_fallback_calls [OF fetch, of ?t w] by simp
  have b: "\<not> list_ex (\<lambda>c. is_send_photo (fst c))
           (drop (length (calls w)) (calls (snd (finalize_question e m uid hi ai w))))"
    unfolding dr using send_url_image_fallback_calls [OF fetch, of ?t w] by simp
  show ?thesis using a b ok by blast
qed

theorem url_fetch_failure_falls_back_to_text_witness:
  "user_data (awaiting_image (two_answers(''image_url'' \<mapsto> ''http://x/y.png''))) 7 =
     Some (two_answers(''image_url'' \<mapsto> ''http://x/y.png'')) \<and>
   (two_answers(''image_url'' \<mapsto> ''http://x/y.png'')) ''image_id'' = None \<and>
   (two_answers(''image_url'' \<mapsto> ''http://x/y.png'')) ''image_url'' = Some ''http://x/y.png'' \<and>
   requests_get env_fetch_fails ''http://x/y.png'' = Inl ''timed out'' \<and>
   list_ex
     (\<lambda>c. fst c =
        SendMessage 1
          (admin_message_text ann (two_answers(''image_url'' \<mapsto> ''http://x/y.png'')) False @
           ''\<newline>\<newline>Image URL: '' @ ''http://x/y.png'')
          None None)
     (calls (snd (finalize_question env_fetch_fails (text_from_ann ''http://x/y.png'') 7 True
        False (awaiting_image (two_answers(''image_url'' \<mapsto> ''http://x/y.png'')))))) \<and>
   \<not> list_ex (\<lambda>c. is_send_photo (fst c))
     (calls (snd (finalize_question env_fetch_fails (text_from_ann ''http://x/y.png'') 7 True
        False (awaiting_image (two_answers(''image_url'' \<mapsto> ''http://x/y.png'')))))) \<and>
   fst (finalize_question env_fetch_fails (text_from_ann ''http://x/y.png'') 7 True False
          (awaiting_image (two_answers(''image_url'' \<mapsto> ''http://x/y.png'')))) = None"
  using url_fetch_failure_falls_back_to_text [of
      "awaiting_image (two_answers(''image_url'' \<mapsto> ''http://x/y.png''))" 7
      "two_answers(''image_url'' \<mapsto> ''http://x/y.png'')" "''http://x/y.png''" env_fetch_fails
      "text_from_ann ''http://x/y.png''" False True]
  by (simp add: awaiting_image_def env_fetch_fails_def text_from_ann_def two_answers_def)

text \<open>
  The download times out and Telegram refuses the fallback text: the exception leaves
  \<open>finalize_question\<close> and \<open>handle_messages\<close>.
\<close>

theorem url_fallback_send_fails_counterexample:
  "requests_get env_all_fail ''http://x/y.png'' = Inl ''timed out'' \<and>
   fst (finalize_question env_all_fail (text_from_ann ''http://x/y.png'') 7 True False
          (awaiting_image (two_answers(''image_url'' \<mapsto> ''http://x/y.png'')))) =
     Some (External ''Bad Gateway'') \<and>
   fst (handle_messages env_all_fail (text_from_ann ''http://x/y.png'')
          (awaiting_image two_answers)) =
     Some (External ''Bad Gateway'')"
  by (simp add: handle_messages_def set_user_data_def lower_def lower_char_def startswith_def
      finalize_question_def notify_admin_def send_url_image_def download_and_send_def
      bot_call_def logger_error_def and_then_def Let_def
      awaiting_image_def env_all_fail_def text_from_ann_def ann_def two_answers_def
      STATE_IMAGE_def STATE_QUESTION_def STATE_DESCRIPTION_def)

section \<open>The fields of a session\<close>

lemma session_okD:
  assumes "session_ok w" and "user_states w uid = Some st"
  obtains d where "user_data w uid = Some d" and "fields_ok st d"
  using assms unfolding session_ok_def by blast

lemma session_ok_same_store:
  "user_states w' = user_states w \<Longrightarrow> user_data w' = user_data w \<Longrightarrow>
   session_ok w \<Longrightarrow> session_ok w'"
  by (simp add: session_ok_def)

lemma session_ok_update:
  assumes "session_ok w" and "fields_ok st d"
    and "user_states w' = (user_states w)(uid \<mapsto> st)"
    and "user_data w' = (user_data w)(uid \<mapsto> d)"
  shows "session_ok w'"
  using assms by (simp add: session_ok_def)

lemma session_ok_clear: "session_ok w \<Longrightarrow> session_ok (clear_user uid w)"
  by (simp add: session_ok_def clear_user_def)

lemma session_ok_keeps_or_clears:
  assumes "session_ok w" and "keeps_or_clears uid w w'"
  shows "session_ok w'"
proof -
  from assms(2) consider
    "user_states w' = user_states w \<and> user_data w' = user_data w"
    | "user_states w' = user_states (clear_user uid w) \<and> user_data w' = user_data (clear_user uid w)"
    by (auto simp: keeps_or_clears_def clear_user_def)
  then show ?thesis
  proof cases
    case 1
    then show ?thesis using assms(1) session_ok_same_store by blast
  next
    case 2
    then show ?thesis using session_ok_clear [OF assms(1), of uid] session_ok_same_store by blast
  qed
qed

lemma session_ok_finalize:
  "session_ok w \<Longrightarrow> session_ok (snd (finalize_question e m uid hi ai w))"
  using finalize_question_store session_ok_keeps_or_clears by blast

lemma fields_ok_more: "fields_ok STATE_IMAGE d \<Longrightarrow> fields_ok STATE_IMAGE (d(key \<mapsto> v))"
  by (auto simp: fields_ok_def STATE_IMAGE_def STATE_QUESTION_def STATE_DESCRIPTION_def)

lemma session_ok_store_then_finalize:
  assumes "session_ok w" and st: "user_states w uid = Some STATE_IMAGE"
  shows "session_ok (snd (and_then (set_user_data uid key v w)
                        (finalize_question e m uid hi ai)))"
proof -
  from assms obtain d where d: "user_data w uid = Some d" and ok: "fields_ok STATE_IMAGE d"
    by (rule session_okD)
  let ?w = "w\<lparr>user_data := (user_data w)(uid \<mapsto> d(key \<mapsto> v))\<rparr>"
  have "user_states ?w = (user_states w)(uid \<mapsto> STATE_IMAGE)"
    using st by auto
  then have "session_ok ?w"
    using session_ok_update [OF assms(1) fields_ok_more [OF ok], of ?w uid key v] by simp
  then show ?thesis
    using d session_ok_finalize [of ?w e m uid hi ai]
    by (simp add: set_user_data_def and_then_def)
qed

lemma session_ok_send_spark: "session_ok w \<Longrightarrow> session_ok (snd (send_spark e m w))"
  by (rule session_ok_update [where st = STATE_QUESTION and d = Map.empty
        and uid = "user_id (from_user m)"])
     (simp_all add: send_spark_def Let_def fields_ok_def)

lemma session_ok_cancel: "session_ok w \<Longrightarrow> session_ok (snd (cancel e m w))"
  by (rule session_ok_same_store [OF _ _ session_ok_clear [of w "user_id (from_user m)"]])
     (simp_all add: cancel_def)

lemma session_ok_bot_call: "session_ok w \<Longrightarrow> session_ok (snd (bot_call e c w))"
  by (rule session_ok_same_store [of _ w]) simp_all

lemma session_ok_handle_photo:
  assumes "session_ok w"
  shows "session_ok (snd (handle_photo e m w))"
proof (cases "user_states w (user_id (from_user m))")
  case None
  then show ?thesis
    using assms by (simp add: handle_photo_def session_ok_bot_call)
next
  case (Some st)
  show ?thesis
  proof (cases "st = STATE_IMAGE")
    case True
    then show ?thesis
      using Some assms session_ok_store_then_finalize [OF assms, of "user_id (from_user m)"]
      by (cases "photo m") (simp_all add: handle_photo_def Let_def del: last.simps)
  next
    case False
    then show ?thesis
      using Some assms by (simp add: handle_photo_def session_ok_bot_call)
  qed
qed

lemma session_ok_answer:
  assumes "session_ok w" and st: "user_states w uid = Some st"
    and step: "\<And>d. fields_ok st d \<Longrightarrow> fields_ok st' (d(key \<mapsto> v))"
  shows "session_ok (snd (and_then (set_user_data uid key v w)
            (\<lambda>w1. bot_call e c (w1\<lparr>user_states := (user_states w1)(uid \<mapsto> st')\<rparr>))))"
proof -
  from assms(1) st obtain d where d: "user_data w uid = Some d" and ok: "fields_ok st d"
    by (rule session_okD)
  show ?thesis
    by (rule session_ok_update [OF assms(1) step [OF ok], where uid = uid])
       (simp_all add: d set_user_data_def and_then_def)
qed

lemma session_ok_handle_messages:
  assumes "session_ok w"
  shows "session_ok (snd (handle_messages e m w))"
proof (cases "user_states w (user_id (from_user m))")
  case None
  then show ?thesis
    using assms by (simp add: handle_messages_def session_ok_bot_call)
next
  case (Some st)
  let ?u = "user_id (from_user m)"
  have q: "fields_ok STATE_DESCRIPTION (d(''question'' \<mapsto> v))" if "fields_ok STATE_QUESTION d"
    for d v
    using that
    by (auto simp: fields_ok_def STATE_IMAGE_def STATE_QUESTION_def STATE_DESCRIPTION_def)
  have dd: "fields_ok STATE_IMAGE (d(''description'' \<mapsto> v))" if "fields_ok STATE_DESCRIPTION d"
    for d v
    using that
    by (auto simp: fields_ok_def STATE_IMAGE_def STATE_QUESTION_def STATE_DESCRIPTION_def)
  show ?thesis
    using Some assms session_ok_finalize [OF assms]
      session_ok_store_then_finalize [OF assms, of ?u]
      session_ok_answer [OF assms, of ?u STATE_QUESTION STATE_DESCRIPTION "''question''", OF _ q]
      session_ok_answer [OF assms, of ?u STATE_DESCRIPTION STATE_IMAGE "''description''", OF _ dd]
    by (simp add: handle_messages_def Let_def)
qed

lemma session_ok_dispatch: "session_ok w \<Longrightarrow> session_ok (snd (dispatch e u w))"
  by (cases u)
     (simp_all add: session_ok_send_spark session_ok_cancel session_ok_handle_messages
       session_ok_handle_photo start_def help_command_def session_ok_bot_call)

lemma session_ok_run: "session_ok w \<Longrightarrow> session_ok (run w us)"
  by (induction us arbitrary: w) (auto simp: session_ok_dispatch)

lemma session_ok_initial: "session_ok initial_world"
  by (simp add: session_ok_def initial_world_def)

lemma fields_ok_image:
  "fields_ok STATE_IMAGE d \<Longrightarrow> ''question'' \<in> dom d \<and> ''description'' \<in> dom d"
  by (simp add: fields_ok_def STATE_IMAGE_def STATE_QUESTION_def STATE_DESCRIPTION_def)

lemma fields_ok_description:
  "fields_ok STATE_DESCRIPTION d \<Longrightarrow> ''question'' \<in> dom d \<and> ''description'' \<notin> dom d"
  by (simp add: fields_ok_def STATE_IMAGE_def STATE_QUESTION_def STATE_DESCRIPTION_def)

lemma fields_ok_question: "fields_ok STATE_QUESTION d \<Longrightarrow> d = Map.empty"
  by (simp add: fields_ok_def STATE_IMAGE_def STATE_QUESTION_def STATE_DESCRIPTION_def)

text \<open>
  Claim C7. After any sequence of updates from the empty dictionaries, a user in state
  \<open>STATE_IMAGE\<close> has both \<open>question\<close> and \<open>description\<close> stored; a user in state
  \<open>STATE_DESCRIPTION\<close> has \<open>question\<close> stored and \<open>description\<close> not yet, so the
  question is stored before the description; a user in state \<open>STATE_QUESTION\<close> has no
  field stored.
\<close>

theorem awaiting_image_has_question_and_description:
  assumes "user_states (run initial_world us) uid = Some st"
  shows "\<exists>d. user_data (run initial_world us) uid = Some d \<and>
           (st = STATE_IMAGE \<longrightarrow> ''question'' \<in> dom d \<and> ''description'' \<in> dom d) \<and>
           (st = STATE_DESCRIPTION \<longrightarrow> ''question'' \<in> dom d \<and> ''description'' \<notin> dom d) \<and>
           (st = STATE_QUESTION \<longrightarrow> d = Map.empty)"
proof -
  have "session_ok (run initial_world us)"
    using session_ok_initial by (rule session_ok_run)
  then obtain d where d: "user_data (run initial_world us) uid = Some d" and ok: "fields_ok st d"
    using assms by (rule session_okD)
  have "st = STATE_IMAGE \<longrightarrow> ''question'' \<in> dom d \<and> ''description'' \<in> dom d"
    using ok fields_ok_image by blast
  moreover have "st = STATE_DESCRIPTION \<longrightarrow> ''question'' \<in> dom d \<and> ''description'' \<notin> dom d"
    using ok fields_ok_description by blast
  moreover have "st = STATE_QUESTION \<longrightarrow> d = Map.empty"
    using ok fields_ok_question by blast
  ultimately show ?thesis using d by blast
qed

lemma run_two_answer_updates:
  "user_states (run initial_world two_answer_updates) = [7 \<mapsto> STATE_IMAGE]"
  "user_data (run initial_world two_answer_updates) = [7 \<mapsto> two_answers]"
  by (simp_all add: two_answer_updates_def initial_world_def send_spark_def handle_messages_def
      set_user_data_def and_then_def bot_call_def env_ok_def text_from_ann_def ann_def
      two_answers_def Let_def STATE_IMAGE_def STATE_QUESTION_def STATE_DESCRIPTION_def)

theorem awaiting_image_has_question_and_description_witness:
  "user_states (run initial_world two_answer_updates) 7 = Some STATE_IMAGE \<and>
   (\<exists>d. user_data (run initial_world two_answer_updates) 7 = Some d \<and>
      ''question'' \<in> dom d \<and> ''description'' \<in> dom d)"
proof -
  have st: "user_states (run initial_world two_answer_updates) 7 = Some STATE_IMAGE"
    by (simp add: run_two_answer_updates)
  show ?thesis
    using st awaiting_image_has_question_and_description [OF st]
    by (simp add: STATE_IMAGE_def STATE_QUESTION_def STATE_DESCRIPTION_def)
qed

section \<open>The keys of the two dictionaries\<close>

lemma keys_keeps_or_clears:
  assumes "dom (user_states w) = dom (user_data w)" and "keeps_or_clears uid w w'"
  shows "dom (user_states w') = dom (user_data w')"
  using assms unfolding keeps_or_clears_def by (elim disjE conjE) simp_all

lemma keys_finalize:
  "dom (user_states w) = dom (user_data w) \<Longrightarrow>
   dom (user_states (snd (finalize_question e m uid hi ai w))) =
   dom (user_data (snd (finalize_question e m uid hi ai w)))"
  using finalize_question_store keys_keeps_or_clears by blast

lemma keys_store_then_finalize:
  assumes "dom (user_states w) = dom (user_data w)"
  shows "dom (user_states (snd (and_then (set_user_data uid key v w)
                                  (finalize_question e m uid hi ai)))) =
         dom (user_data (snd (and_then (set_user_data uid key v w)
                                  (finalize_question e m uid hi ai))))"
proof (cases "user_data w uid")
  case None
  then show ?thesis using assms by (simp add: set_user_data_def and_then_def)
next
  case (Some d)
  let ?w = "w\<lparr>user_data := (user_data w)(uid \<mapsto> d(key \<mapsto> v))\<rparr>"
  have "dom (user_states ?w) = dom (user_data ?w)"
    using assms Some by auto
  then show ?thesis
    using Some keys_finalize [of ?w e m uid hi ai]
    by (simp add: set_user_data_def and_then_def)
qed

lemma keys_answer:
  assumes "dom (user_states w) = dom (user_data w)"
  shows "dom (user_states (snd (and_then (set_user_data uid key v w)
            (\<lambda>w1. bot_call e c (w1\<lparr>user_states := (user_states w1)(uid \<mapsto> st')\<rparr>))))) =
         dom (user_data (snd (and_then (set_user_data uid key v w)
            (\<lambda>w1. bot_call e c (w1\<lparr>user_states := (user_states w1)(uid \<mapsto> st')\<rparr>)))))"
  using assms by (cases "user_data w uid") (auto simp: set_user_data_def and_then_def)

lemma keys_dispatch:
  assumes "dom (user_states w) = dom (user_data w)"
  shows "dom (user_states (snd (dispatch e u w))) = dom (user_data (snd (dispatch e u w)))"
proof (cases u)
  case (TextMessage m)
  then show ?thesis
    using assms keys_finalize [OF assms] keys_store_then_finalize [OF assms] keys_answer [OF assms]
    by (simp add: handle_messages_def Let_def split: option.splits)
next
  case (PhotoMessage m)
  then show ?thesis
    using assms keys_store_then_finalize [OF assms]
    by (simp add: handle_photo_def Let_def split: option.splits list.splits del: last.simps)
qed (use assms in \<open>simp_all add: start_def help_command_def send_spark_def cancel_def
      clear_user_def Let_def\<close>)

lemma keys_run:
  "dom (user_states w) = dom (user_data w) \<Longrightarrow>
   dom (user_states (run w us)) = dom (user_data (run w us))"
  by (induction w us rule: run.induct) (simp_all add: keys_dispatch)


lemma notify_admin_no_KeyError: "fst (notify_admin e d t w) \<noteq> Some (KeyError k)"
  by (simp add: notify_admin_def send_url_image_if split: option.splits)

lemma finalize_no_KeyError:
  assumes "user_data w uid = Some d"
  shows "fst (finalize_question e m uid hi ai w) \<noteq> Some (KeyError k)"
  unfolding finalize_question_Some [OF assms] by (simp add: notify_admin_no_KeyError)

lemma store_then_finalize_no_KeyError:
  assumes "user_data w uid = Some d"
  shows "fst (and_then (set_user_data uid key v w) (finalize_question e m uid hi ai)) \<noteq>
           Some (KeyError k)"
  using finalize_no_KeyError
    [of "w\<lparr>user_data := (user_data w)(uid \<mapsto> d(key \<mapsto> v))\<rparr>" uid "d(key \<mapsto> v)"]
  by (simp add: assms set_user_data_def and_then_def)

lemma dispatch_no_KeyError:
  assumes "dom (user_states w) = dom (user_data w)"
  shows "fst (dispatch e u w) \<noteq> Some (KeyError k)"
proof (cases u)
  case (TextMessage m)
  show ?thesis
  proof (cases "user_states w (user_id (from_user m))")
    case None
    then show ?thesis using TextMessage by (simp add: handle_messages_def)
  next
    case (Some st)
    then obtain d where d: "user_data w (user_id (from_user m)) = Some d"
      using assms by blast
    then show ?thesis
      using TextMessage Some finalize_no_KeyError [OF d] store_then_finalize_no_KeyError [OF d]
      by (simp add: handle_messages_def Let_def)
         (simp add: d set_user_data_def and_then_def)
  qed
next
  case (PhotoMessage m)
  show ?thesis
  proof (cases "user_states w (user_id (from_user m))")
    case None
    then show ?thesis using PhotoMessage by (simp add: handle_photo_def)
  next
    case (Some st)
    then obtain d where d: "user_data w (user_id (from_user m)) = Some d"
      using assms by blast
    then show ?thesis
      using PhotoMessage Some store_then_finalize_no_KeyError [OF d]
      by (cases "photo m") (simp_all add: handle_photo_def Let_def del: last.simps)
  qed
qed (simp_all add: start_def help_command_def send_spark_def cancel_def Let_def)

text \<open>
  Claim C10. When \<open>user_states\<close> and \<open>user_data\<close> have the same keys, they have the same
  keys after any sequence of updates and after \<open>finalize_question\<close>, and no handler
  raises \<open>KeyError\<close> on the world such a sequence leads to.
\<close>

theorem key_sets_coincide:
  assumes "dom (user_states w) = dom (user_data w)"
  shows "dom (user_states (run w us)) = dom (user_data (run w us)) \<and>
         (\<forall>e u k. fst (dispatch e u (run w us)) \<noteq> Some (KeyError k)) \<and>
         (\<forall>e m uid hi ai.
            dom (user_states (snd (finalize_question e m uid hi ai w))) =
            dom (user_data (snd (finalize_question e m uid hi ai w))))"
  using keys_run [OF assms] dispatch_no_KeyError [OF keys_run [OF assms]] keys_finalize [OF assms]
  by blast

theorem key_sets_coincide_witness:
  "dom (user_states initial_world) = dom (user_data initial_world) \<and>
   dom (user_states (run initial_world two_answer_updates)) = {7} \<and>
   dom (user_data (run initial_world two_answer_updates)) = {7} \<and>
   fst (dispatch env_ok (TextMessage (text_from_ann ''no''))
          (run initial_world two_answer_updates)) \<noteq> Some (KeyError 7)"
proof -
  have i: "dom (user_states initial_world) = dom (user_data initial_world)"
    by (simp add: initial_world_def)
  note c10 = key_sets_coincide [OF i, of two_answer_updates]
  from c10 have a: "fst (dispatch env_ok (TextMessage (text_from_ann ''no''))
          (run initial_world two_answer_updates)) \<noteq> Some (KeyError 7)"
    by blast
  have b: "dom (user_states (run initial_world two_answer_updates)) = {7}"
    by (simp add: run_two_answer_updates)
  from c10 have "dom (user_data (run initial_world two_answer_updates)) =
      dom (user_states (run initial_world two_answer_updates))"
    by simp
  then have c: "dom (user_data (run initial_world two_answer_updates)) = {7}"
    using b by simp
  show ?thesis using i a b c by blast
qed

section \<open>Text in the image step\<close>

lemma finalize_question_outcome:
  assumes "user_data w uid = Some d"
  shows "(fst (finalize_question e m uid hi ai w) = None \<longrightarrow>
            user_states (snd (finalize_question e m uid hi ai w)) = (user_states w)(uid := None) \<and>
            user_data (snd (finalize_question e m uid hi ai w)) = (user_data w)(uid := None)) \<and>
         (fst (finalize_question e m uid hi ai w) \<noteq> None \<longrightarrow>
            user_states (snd (finalize_question e m uid hi ai w)) = user_states w \<and>
            user_data (snd (finalize_question e m uid hi ai w)) = user_data w)"
  unfolding finalize_question_Some [OF assms] by (auto simp: clear_user_def)

lemma admin_message_text_image_url [simp]:
  "admin_message_text u (d(''image_url'' \<mapsto> v)) ai = admin_message_text u d ai"
  by (simp add: admin_message_text_def Let_def)

lemma admin_message_text_additional_info:
  "admin_message_text u (d(''additional_info'' \<mapsto> a)) True =
     admin_message_text u d False @ ''\<newline>\<newline>Additional Info: '' @ a"
  by (simp add: admin_message_text_def Let_def)

lemma take_append_known:
  "take k xs = ys \<Longrightarrow> length ys = k \<Longrightarrow> take k (xs @ zs) = ys"
  by (auto simp: min_def split: if_splits)

lemma send_url_image_first_call:
  "take (Suc (length (calls w))) (calls (snd (send_url_image e t url w))) =
     calls w @ [(RequestsGet url, case requests_get e url of Inl x \<Rightarrow> Some x | Inr r \<Rightarrow> None)]"
  by (simp add: send_url_image_if download_and_send_def Let_def split: sum.splits)

lemma send_url_image_second_call:
  assumes "requests_get e url = Inr r" and "status_code r = 200"
  shows "take (Suc (Suc (length (calls w)))) (calls (snd (send_url_image e t url w))) =
     calls w @ [(RequestsGet url, None),
       (SendPhoto (ADMIN_USER_ID e) (BytesIO (content r)) t,
        bot_result e (Suc (length (calls w))) (SendPhoto (ADMIN_USER_ID e) (BytesIO (content r)) t))]"
  using assms by (simp add: send_url_image_if download_and_send_def Let_def)


lemma handle_messages_url:
  assumes "user_states w (user_id (from_user m)) = Some STATE_IMAGE"
    and "lower (message_text m) \<notin> {''no'', ''none'', ''n''}"
    and "startswith (lower (message_text m)) [''http://'', ''https://'']"
    and "user_data w (user_id (from_user m)) = Some d"
  shows "handle_messages e m w =
           finalize_question e m (user_id (from_user m)) True False
             (w\<lparr>user_data := (user_data w)(user_id (from_user m) \<mapsto>
                  d(''image_url'' \<mapsto> message_text m))\<rparr>)"
  using assms
  by (simp add: handle_messages_def Let_def STATE_IMAGE_def STATE_QUESTION_def
      STATE_DESCRIPTION_def set_user_data_def and_then_def)

lemma handle_messages_other:
  assumes "user_states w (user_id (from_user m)) = Some STATE_IMAGE"
    and "lower (message_text m) \<notin> {''no'', ''none'', ''n''}"
    and "\<not> startswith (lower (message_text m)) [''http://'', ''https://'']"
    and "user_data w (user_id (from_user m)) = Some d"
  shows "handle_messages e m w =
           finalize_question e m (user_id (from_user m)) False True
             (w\<lparr>user_data := (user_data w)(user_id (from_user m) \<mapsto>
                  d(''additional_info'' \<mapsto> message_text m))\<rparr>)"
  using assms
  by (simp add: handle_messages_def Let_def STATE_IMAGE_def STATE_QUESTION_def
      STATE_DESCRIPTION_def set_user_data_def and_then_def)

lemma finalize_question_text_only:
  assumes "user_data w uid = Some d" and "d ''image_id'' = None" and "d ''image_url'' = None"
  shows "calls (snd (finalize_question e m uid hi ai w)) =
           calls w @
           (SendMessage (ADMIN_USER_ID e) (admin_message_text (from_user m) d ai) None None,
            bot_result e (length (calls w))
              (SendMessage (ADMIN_USER_ID e) (admin_message_text (from_user m) d ai) None None)) #
           (if bot_result e (length (calls w))
                 (SendMessage (ADMIN_USER_ID e) (admin_message_text (from_user m) d ai) None None) =
               None
            then [(SendMessage (chat_id m) submitted_text (Some sendspark_markup) None,
                   bot_result e (Suc (length (calls w)))
                     (SendMessage (chat_id m) submitted_text (Some sendspark_markup) None))]
            else [])"
  using assms by (simp add: finalize_question_calls [OF assms(1)] notify_admin_def)



lemma lower_scheme: "lower ''http://'' = ''http://''" "lower ''https://'' = ''https://''"
  by (simp_all add: lower_def lower_char_def)

lemma prefix_lower: "prefix p s \<Longrightarrow> prefix (lower p) (lower s)"
  by (simp add: lower_def map_mono_prefix)

lemma startswith_scheme_lower:
  assumes "startswith s [''http://'', ''https://'']"
  shows "startswith (lower s) [''http://'', ''https://'']"
  using assms prefix_lower [of "''http://''" s] prefix_lower [of "''https://''" s]
  by (auto simp: startswith_def lower_scheme)

lemma finalize_question_url_calls:
  assumes d: "user_data w uid = Some d" and no_photo: "d ''image_id'' = None"
    and url: "d ''image_url'' = Some url"
  shows "take (Suc (length (calls w))) (calls (snd (finalize_question e m uid hi ai w))) =
           calls w @
           [(RequestsGet url, case requests_get e url of Inl x \<Rightarrow> Some x | Inr r \<Rightarrow> None)]"
    and "requests_get e url = Inr r \<Longrightarrow> status_code r = 200 \<Longrightarrow>
         take (Suc (Suc (length (calls w)))) (calls (snd (finalize_question e m uid hi ai w))) =
           calls w @
           [(RequestsGet url, None),
            (SendPhoto (ADMIN_USER_ID e) (BytesIO (content r))
               (admin_message_text (from_user m) d ai @ ''\<newline>\<newline>Image URL: '' @ url),
             bot_result e (Suc (length (calls w)))
               (SendPhoto (ADMIN_USER_ID e) (BytesIO (content r))
                  (admin_message_text (from_user m) d ai @ ''\<newline>\<newline>Image URL: '' @ url)))]"
proof -
  let ?t = "admin_message_text (from_user m) d ai @ ''\<newline>\<newline>Image URL: '' @ url"
  have n: "notify_admin e d (admin_message_text (from_user m) d ai) w =
             send_url_image e ?t url w"
    using no_photo url by (simp add: notify_admin_def)
  show "take (Suc (length (calls w))) (calls (snd (finalize_question e m uid hi ai w))) =
           calls w @
           [(RequestsGet url, case requests_get e url of Inl x \<Rightarrow> Some x | Inr r \<Rightarrow> None)]"
    unfolding finalize_question_calls [OF d] n
    by (rule take_append_known [OF send_url_image_first_call]) simp
  show "take (Suc (Suc (length (calls w)))) (calls (snd (finalize_question e m uid hi ai w))) =
           calls w @
           [(RequestsGet url, None),
            (SendPhoto (ADMIN_USER_ID e) (BytesIO (content r)) ?t,
             bot_result e (Suc (length (calls w)))
               (SendPhoto (ADMIN_USER_ID e) (BytesIO (content r)) ?t))]"
    if "requests_get e url = Inr r" and "status_code r = 200"
    unfolding finalize_question_calls [OF d] n
    by (rule take_append_known [OF send_url_image_second_call [OF that]]) simp
qed

subsection \<open>Sessions whose handlers never raised\<close>

text \<open>
  When no handler of a run has raised, a session in state \<open>STATE_IMAGE\<close> holds the
  question and the description and nothing else: no photo reference, no image URL and
  no additional info.
\<close>

lemma sessions_exactD:
  assumes "sessions_exact w" and "user_states w uid = Some st"
  obtains d where "user_data w uid = Some d" and "exact_fields st d"
  using assms unfolding sessions_exact_def by blast

lemma sessions_exact_same_store:
  "user_states w' = user_states w \<Longrightarrow> user_data w' = user_data w \<Longrightarrow>
   sessions_exact w \<Longrightarrow> sessions_exact w'"
  by (simp add: sessions_exact_def)

lemma sessions_exact_update:
  assumes "sessions_exact w" and "exact_fields st d"
    and "user_states w' = (user_states w)(uid \<mapsto> st)"
    and "user_data w' = (user_data w)(uid \<mapsto> d)"
  shows "sessions_exact w'"
  using assms by (simp add: sessions_exact_def)

lemma sessions_exact_cleared:
  assumes "sessions_exact w"
    and "user_states w' = (user_states w)(uid := None)"
    and "user_data w' = (user_data w)(uid := None)"
  shows "sessions_exact w'"
  using assms by (simp add: sessions_exact_def)

lemma sessions_exact_bot_call: "sessions_exact w \<Longrightarrow> sessions_exact (snd (bot_call e c w))"
  by (rule sessions_exact_same_store [of _ w]) simp_all

lemma sessions_exact_finalize:
  assumes "sessions_exact w" and "fst (finalize_question e m uid hi ai w) = None"
  shows "sessions_exact (snd (finalize_question e m uid hi ai w))"
proof (cases "user_data w uid")
  case None
  then show ?thesis using assms by (simp add: finalize_question_def)
next
  case (Some d)
  show ?thesis
    using finalize_question_outcome [OF Some, of e m hi ai] assms(2)
    by (intro sessions_exact_cleared [OF assms(1), of _ uid]) simp_all
qed

lemma sessions_exact_store_then_finalize:
  assumes "sessions_exact w"
    and "fst (and_then (set_user_data uid key v w) (finalize_question e m uid hi ai)) = None"
  shows "sessions_exact (snd (and_then (set_user_data uid key v w)
                            (finalize_question e m uid hi ai)))"
proof (cases "user_data w uid")
  case None
  then show ?thesis using assms by (simp add: set_user_data_def and_then_def)
next
  case (Some d)
  let ?w = "w\<lparr>user_data := (user_data w)(uid \<mapsto> d(key \<mapsto> v))\<rparr>"
  have r: "and_then (set_user_data uid key v w) (finalize_question e m uid hi ai) =
           finalize_question e m uid hi ai ?w"
    using Some by (simp add: set_user_data_def and_then_def)
  have d': "user_data ?w uid = Some (d(key \<mapsto> v))" by simp
  show ?thesis
    unfolding r
    using finalize_question_outcome [OF d', of e m hi ai] assms(2) [unfolded r]
    by (intro sessions_exact_cleared [OF assms(1), of _ uid]) simp_all
qed

lemma sessions_exact_answer:
  assumes "sessions_exact w" and st: "user_states w uid = Some st"
    and step: "\<And>d. exact_fields st d \<Longrightarrow> exact_fields st' (d(key \<mapsto> v))"
  shows "sessions_exact (snd (and_then (set_user_data uid key v w)
            (\<lambda>w1. bot_call e c (w1\<lparr>user_states := (user_states w1)(uid \<mapsto> st')\<rparr>))))"
proof -
  from assms(1) st obtain d where d: "user_data w uid = Some d" and ok: "exact_fields st d"
    by (rule sessions_exactD)
  show ?thesis
    by (rule sessions_exact_update [OF assms(1) step [OF ok], where uid = uid])
       (simp_all add: d set_user_data_def and_then_def)
qed

lemma sessions_exact_handle_messages:
  assumes "sessions_exact w" and "fst (handle_messages e m w) = None"
  shows "sessions_exact (snd (handle_messages e m w))"
proof (cases "user_states w (user_id (from_user m))")
  case None
  then show ?thesis
    using assms by (simp add: handle_messages_def sessions_exact_bot_call)
next
  case (Some st)
  let ?u = "user_id (from_user m)"
  let ?b = "message_text m"
  have q: "exact_fields STATE_DESCRIPTION (d(''question'' \<mapsto> v))"
    if "exact_fields STATE_QUESTION d" for d v
    using that
    by (auto simp: exact_fields_def STATE_IMAGE_def STATE_QUESTION_def STATE_DESCRIPTION_def)
  have dd: "exact_fields STATE_IMAGE (d(''description'' \<mapsto> v))"
    if "exact_fields STATE_DESCRIPTION d" for d v
    using that
    by (auto simp: exact_fields_def STATE_IMAGE_def STATE_QUESTION_def STATE_DESCRIPTION_def)
  consider (question) "st = STATE_QUESTION" | (description) "st = STATE_DESCRIPTION"
    | (skip) "st = STATE_IMAGE" "lower ?b \<in> {''no'', ''none'', ''n''}"
    | (url) "st = STATE_IMAGE" "lower ?b \<notin> {''no'', ''none'', ''n''}"
        "startswith (lower ?b) [''http://'', ''https://'']"
    | (other) "st = STATE_IMAGE" "lower ?b \<notin> {''no'', ''none'', ''n''}"
        "\<not> startswith (lower ?b) [''http://'', ''https://'']"
    | (none) "st \<noteq> STATE_QUESTION" "st \<noteq> STATE_DESCRIPTION" "st \<noteq> STATE_IMAGE"
    by blast
  then show ?thesis
  proof cases
    case question
    then show ?thesis
      using Some
        sessions_exact_answer [OF assms(1), of ?u STATE_QUESTION STATE_DESCRIPTION "''question''",
          OF _ q]
      by (simp add: handle_messages_def Let_def)
  next
    case description
    then show ?thesis
      using Some
        sessions_exact_answer [OF assms(1), of ?u STATE_DESCRIPTION STATE_IMAGE "''description''",
          OF _ dd]
      by (simp add: handle_messages_def Let_def STATE_QUESTION_def STATE_DESCRIPTION_def)
  next
    case skip
    have h: "handle_messages e m w = finalize_question e m ?u False False w"
      using Some skip
      by (simp add: handle_messages_def Let_def STATE_IMAGE_def STATE_QUESTION_def
          STATE_DESCRIPTION_def)
    show ?thesis
      unfolding h using assms(2) [unfolded h] by (rule sessions_exact_finalize [OF assms(1)])
  next
    case url
    have h: "handle_messages e m w =
        and_then (set_user_data ?u ''image_url'' ?b w) (finalize_question e m ?u True False)"
      using Some url
      by (simp add: handle_messages_def Let_def STATE_IMAGE_def STATE_QUESTION_def
          STATE_DESCRIPTION_def)
    show ?thesis
      unfolding h using assms(2) [unfolded h]
      by (rule sessions_exact_store_then_finalize [OF assms(1)])
  next
    case other
    have h: "handle_messages e m w =
        and_then (set_user_data ?u ''additional_info'' ?b w)
          (finalize_question e m ?u False True)"
      using Some other
      by (simp add: handle_messages_def Let_def STATE_IMAGE_def STATE_QUESTION_def
          STATE_DESCRIPTION_def)
    show ?thesis
      unfolding h using assms(2) [unfolded h]
      by (rule sessions_exact_store_then_finalize [OF assms(1)])
  next
    case none
    then show ?thesis
      using Some assms(1) by (simp add: handle_messages_def Let_def)
  qed
qed

lemma sessions_exact_handle_photo:
  assumes "sessions_exact w" and "fst (handle_photo e m w) = None"
  shows "sessions_exact (snd (handle_photo e m w))"
proof (cases "user_states w (user_id (from_user m))")
  case None
  then show ?thesis
    using assms by (simp add: handle_photo_def sessions_exact_bot_call)
next
  case (Some st)
  show ?thesis
  proof (cases "st = STATE_IMAGE")
    case True
    then show ?thesis
      using Some assms sessions_exact_store_then_finalize [OF assms(1), of "user_id (from_user m)"]
      by (cases "photo m") (simp_all add: handle_photo_def Let_def del: last.simps)
  next
    case False
    then show ?thesis
      using Some assms by (simp add: handle_photo_def sessions_exact_bot_call)
  qed
qed

lemma sessions_exact_send_spark: "sessions_exact w \<Longrightarrow> sessions_exact (snd (send_spark e m w))"
  by (rule sessions_exact_update [where st = STATE_QUESTION and d = Map.empty
        and uid = "user_id (from_user m)"])
     (simp_all add: send_spark_def Let_def exact_fields_def)

lemma sessions_exact_cancel: "sessions_exact w \<Longrightarrow> sessions_exact (snd (cancel e m w))"
  by (rule sessions_exact_cleared [where uid = "user_id (from_user m)"])
     (simp_all add: cancel_def clear_user_def)

lemma sessions_exact_dispatch:
  "sessions_exact w \<Longrightarrow> fst (dispatch e u w) = None \<Longrightarrow> sessions_exact (snd (dispatch e u w))"
  by (cases u)
     (simp_all add: sessions_exact_send_spark sessions_exact_cancel sessions_exact_handle_messages
       sessions_exact_handle_photo start_def help_command_def sessions_exact_bot_call)

lemma sessions_exact_run:
  "sessions_exact w \<Longrightarrow> raises_nothing w us \<Longrightarrow> sessions_exact (run w us)"
  by (induction w us rule: run.induct) (simp_all add: sessions_exact_dispatch)

lemma quiet_run_image_fields:
  assumes "raises_nothing initial_world us"
    and "user_states (run initial_world us) uid = Some STATE_IMAGE"
  shows "\<exists>d. user_data (run initial_world us) uid = Some d \<and>
           dom d = {''question'', ''description''} \<and>
           d ''image_id'' = None \<and> d ''image_url'' = None \<and> d ''additional_info'' = None"
proof -
  have "sessions_exact initial_world"
    by (simp add: sessions_exact_def initial_world_def)
  then have "sessions_exact (run initial_world us)"
    using assms(1) by (rule sessions_exact_run)
  then obtain d where d: "user_data (run initial_world us) uid = Some d"
    and ex: "exact_fields STATE_IMAGE d"
    using assms(2) by (rule sessions_exactD)
  from ex have dom: "dom d = {''question'', ''description''}"
    by (simp add: exact_fields_def STATE_IMAGE_def STATE_QUESTION_def STATE_DESCRIPTION_def)
  have "''image_id'' \<notin> dom d" "''image_url'' \<notin> dom d" "''additional_info'' \<notin> dom d"
    unfolding dom by simp_all
  then have "d ''image_id'' = None" "d ''image_url'' = None" "d ''additional_info'' = None"
    by (simp_all add: domIff)
  then show ?thesis using d dom by blast
qed

subsection \<open>Two sessions left behind by a refused call\<close>

lemma run_refused_photo_updates:
  "run initial_world refused_photo_updates =
     \<lparr>user_states = [7 \<mapsto> STATE_IMAGE],
      user_data = [7 \<mapsto> two_answers(''image_id'' \<mapsto> ''large'')],
      calls =
        [(SendMessage 7 ask_question_text None None, None),
         (SendMessage 7 ask_description_text None None, None),
         (SendMessage 7 ask_image_text None None, None),
         (SendPhoto 1 (FileId ''large'')
            (admin_message_text ann (two_answers(''image_id'' \<mapsto> ''large'')) False),
          Some ''Bad Request'')]\<rparr>"
  by (simp add: refused_photo_updates_def two_answer_updates_def initial_world_def
      send_spark_def handle_messages_def handle_photo_def set_user_data_def and_then_def
      finalize_question_def notify_admin_def bot_call_def env_ok_def env_photo_fails_def
      text_from_ann_def photo_from_ann_def ann_def two_answers_def Let_def
      STATE_IMAGE_def STATE_QUESTION_def STATE_DESCRIPTION_def)

lemma run_unconfirmed_url_updates:
  "run initial_world unconfirmed_url_updates =
     \<lparr>user_states = [7 \<mapsto> STATE_IMAGE],
      user_data = [7 \<mapsto> two_answers(''image_url'' \<mapsto> ''http://x/y.png'')],
      calls =
        [(SendMessage 7 ask_question_text None None, None),
         (SendMessage 7 ask_description_text None None, None),
         (SendMessage 7 ask_image_text None None, None),
         (RequestsGet ''http://x/y.png'', None),
         (SendPhoto 1 (BytesIO ''png'')
            (admin_message_text ann (two_answers(''image_url'' \<mapsto> ''http://x/y.png'')) False @
             ''\<newline>\<newline>Image URL: http://x/y.png''),
          None),
         (SendMessage 7 submitted_text (Some sendspark_markup) None, Some ''Forbidden'')]\<rparr>"
  by (simp add: unconfirmed_url_updates_def two_answer_updates_def initial_world_def
      send_spark_def handle_messages_def set_user_data_def and_then_def
      lower_def lower_char_def startswith_def
      finalize_question_def notify_admin_def send_url_image_def download_and_send_def
      bot_call_def env_ok_def env_confirm_fails_def
      text_from_ann_def ann_def two_answers_def Let_def
      STATE_IMAGE_def STATE_QUESTION_def STATE_DESCRIPTION_def)

subsection \<open>Skip keywords\<close>




subsection \<open>Links and other text\<close>

text \<open>
  Claim C3, as the code has it. In state \<open>STATE_IMAGE\<close>, with fields that hold no photo
  reference, a text that is not a skip keyword is classified by the prefix of its
  lowered form. When the lowered text starts with \<open>http://\<close> or \<open>https://\<close>, as it
  does whenever the text itself starts so, the text as sent is the image URL: it is the
  first thing requested, a downloaded image is sent to the admin with the URL line in
  its caption, and the text stays stored under \<open>image_url\<close> when the handler raises.
  Otherwise, when the fields hold no image URL either, the only call to the admin is a
  \<open>send_message\<close> whose text ends with the additional-info line carrying the text as
  sent, and the text stays stored under \<open>additional_info\<close> when the handler raises.
  In both cases the session is removed when nothing is raised.
\<close>

theorem awaiting_image_text_classified:
  fixes w :: world and m :: message and e :: env and d :: "string \<rightharpoonup> string"
  defines "base \<equiv> admin_message_text (from_user m) d False"
  defines "confirmation \<equiv>
    SendMessage (chat_id m) submitted_text (Some sendspark_markup) None"
  assumes st: "user_states w (user_id (from_user m)) = Some STATE_IMAGE"
    and kw: "lower (message_text m) \<notin> {''no'', ''none'', ''n''}"
    and d: "user_data w (user_id (from_user m)) = Some d"
    and no_photo: "d ''image_id'' = None"
  shows "(startswith (message_text m) [''http://'', ''https://''] \<longrightarrow>
            startswith (lower (message_text m)) [''http://'', ''https://'']) \<and>
         (startswith (lower (message_text m)) [''http://'', ''https://''] \<longrightarrow>
            take (Suc (length (calls w))) (calls (snd (handle_messages e m w))) =
              calls w @
              [(RequestsGet (message_text m),
                case requests_get e (message_text m) of Inl x \<Rightarrow> Some x | Inr r \<Rightarrow> None)] \<and>
            (\<forall>r. requests_get e (message_text m) = Inr r \<and> status_code r = 200 \<longrightarrow>
               take (Suc (Suc (length (calls w)))) (calls (snd (handle_messages e m w))) =
                 calls w @
                 [(RequestsGet (message_text m), None),
                  (SendPhoto (ADMIN_USER_ID e) (BytesIO (content r))
                     (base @ ''\<newline>\<newline>Image URL: '' @ message_text m),
                   bot_result e (Suc (length (calls w)))
                     (SendPhoto (ADMIN_USER_ID e) (BytesIO (content r))
                        (base @ ''\<newline>\<newline>Image URL: '' @ message_text m)))]) \<and>
            (fst (handle_messages e m w) = None \<longrightarrow>
               user_states (snd (handle_messages e m w)) =
                 (user_states w)(user_id (from_user m) := None) \<and>
               user_data (snd (handle_messages e m w)) =
                 (user_data w)(user_id (from_user m) := None)) \<and>
            (fst (handle_messages e m w) \<noteq> None \<longrightarrow>
               user_states (snd (handle_messages e m w)) = user_states w \<and>
               user_data (snd (handle_messages e m w)) =
                 (user_data w)(user_id (from_user m) \<mapsto>
                    d(''image_url'' \<mapsto> message_text m)))) \<and>
         (\<not> startswith (lower (message_text m)) [''http://'', ''https://''] \<and>
          d ''image_url'' = None \<longrightarrow>
            calls (snd (handle_messages e m w)) =
              calls w @
              (SendMessage (ADMIN_USER_ID e)
                 (base @ ''\<newline>\<newline>Additional Info: '' @ message_text m) None None,
               bot_result e (length (calls w))
                 (SendMessage (ADMIN_USER_ID e)
                    (base @ ''\<newline>\<newline>Additional Info: '' @ message_text m) None None)) #
              (if bot_result e (length (calls w))
                    (SendMessage (ADMIN_USER_ID e)
                       (base @ ''\<newline>\<newline>Additional Info: '' @ message_text m) None None) =
                  None
               then [(confirmation, bot_result e (Suc (length (calls w))) confirmation)]
               else []) \<and>
            (fst (handle_messages e m w) = None \<longrightarrow>
               user_states (snd (handle_messages e m w)) =
                 (user_states w)(user_id (from_user m) := None) \<and>
               user_data (snd (handle_messages e m w)) =
                 (user_data w)(user_id (from_user m) := None)) \<and>
            (fst (handle_messages e m w) \<noteq> None \<longrightarrow>
               user_states (snd (handle_messages e m w)) = user_states w \<and>
               user_data (snd (handle_messages e m w)) =
                 (user_data w)(user_id (from_user m) \<mapsto>
                    d(''additional_info'' \<mapsto> message_text m))))"
proof (intro conjI impI)
  let ?u = "user_id (from_user m)"
  let ?b = "message_text m"
  assume "startswith ?b [''http://'', ''https://'']"
  then show "startswith (lower ?b) [''http://'', ''https://'']"
    by (rule startswith_scheme_lower)
next
  let ?u = "user_id (from_user m)"
  let ?b = "message_text m"
  let ?w = "w\<lparr>user_data := (user_data w)(?u \<mapsto> d(''image_url'' \<mapsto> ?b))\<rparr>"
  assume sw: "startswith (lower ?b) [''http://'', ''https://'']"
  have h: "handle_messages e m w = finalize_question e m ?u True False ?w"
    using st kw sw d by (rule handle_messages_url)
  have d': "user_data ?w ?u = Some (d(''image_url'' \<mapsto> ?b))" by simp
  have p': "(d(''image_url'' \<mapsto> ?b)) ''image_id'' = None" using no_photo by simp
  have u': "(d(''image_url'' \<mapsto> ?b)) ''image_url'' = Some ?b" by simp
  have cw: "calls ?w = calls w" by simp
  note c = finalize_question_url_calls
    [OF d' p' u', where e = e and m = m and hi = True and ai = False]
  note o = finalize_question_outcome [OF d', where e = e and m = m and hi = True and ai = False]
  show "take (Suc (length (calls w))) (calls (snd (handle_messages e m w))) =
          calls w @
          [(RequestsGet ?b, case requests_get e ?b of Inl x \<Rightarrow> Some x | Inr r \<Rightarrow> None)]"
    unfolding h using c(1) by simp
  show "\<forall>r. requests_get e ?b = Inr r \<and> status_code r = 200 \<longrightarrow>
          take (Suc (Suc (length (calls w)))) (calls (snd (handle_messages e m w))) =
            calls w @
            [(RequestsGet ?b, None),
             (SendPhoto (ADMIN_USER_ID e) (BytesIO (content r))
                (base @ ''\<newline>\<newline>Image URL: '' @ ?b),
              bot_result e (Suc (length (calls w)))
                (SendPhoto (ADMIN_USER_ID e) (BytesIO (content r))
                   (base @ ''\<newline>\<newline>Image URL: '' @ ?b)))]"
    unfolding h base_def
    using c(2) [unfolded admin_message_text_image_url cw] by blast
  show "user_states (snd (handle_messages e m w)) = (user_states w)(?u := None)"
    if "fst (handle_messages e m w) = None"
    using that o unfolding h by simp
  show "user_data (snd (handle_messages e m w)) = (user_data w)(?u := None)"
    if "fst (handle_messages e m w) = None"
    using that o unfolding h by simp
  show "user_states (snd (handle_messages e m w)) = user_states w"
    if "fst (handle_messages e m w) \<noteq> None"
    using that o unfolding h by simp
  show "user_data (snd (handle_messages e m w)) = (user_data w)(?u \<mapsto> d(''image_url'' \<mapsto> ?b))"
    if "fst (handle_messages e m w) \<noteq> None"
    using that o unfolding h by simp
next
  let ?u = "user_id (from_user m)"
  let ?b = "message_text m"
  let ?w = "w\<lparr>user_data := (user_data w)(?u \<mapsto> d(''additional_info'' \<mapsto> ?b))\<rparr>"
  assume a: "\<not> startswith (lower ?b) [''http://'', ''https://''] \<and> d ''image_url'' = None"
  have h: "handle_messages e m w = finalize_question e m ?u False True ?w"
    using st kw _ d by (rule handle_messages_other) (use a in blast)
  have d': "user_data ?w ?u = Some (d(''additional_info'' \<mapsto> ?b))" by simp
  have p': "(d(''additional_info'' \<mapsto> ?b)) ''image_id'' = None" using no_photo by simp
  have u': "(d(''additional_info'' \<mapsto> ?b)) ''image_url'' = None" using a by simp
  have cw: "calls ?w = calls w" by simp
  note c = finalize_question_text_only
    [OF d' p' u', where e = e and m = m and hi = False and ai = True]
  note o = finalize_question_outcome [OF d', where e = e and m = m and hi = False and ai = True]
  show "calls (snd (handle_messages e m w)) =
          calls w @
          (SendMessage (ADMIN_USER_ID e) (base @ ''\<newline>\<newline>Additional Info: '' @ ?b) None None,
           bot_result e (length (calls w))
             (SendMessage (ADMIN_USER_ID e) (base @ ''\<newline>\<newline>Additional Info: '' @ ?b)
                None None)) #
          (if bot_result e (length (calls w))
                (SendMessage (ADMIN_USER_ID e) (base @ ''\<newline>\<newline>Additional Info: '' @ ?b)
                   None None) = None
           then [(confirmation, bot_result e (Suc (length (calls w))) confirmation)]
           else [])"
    unfolding h base_def confirmation_def
    by (rule c [unfolded admin_message_text_additional_info cw])
  show "user_states (snd (handle_messages e m w)) = (user_states w)(?u := None)"
    if "fst (handle_messages e m w) = None"
    using that o unfolding h by simp
  show "user_data (snd (handle_messages e m w)) = (user_data w)(?u := None)"
    if "fst (handle_messages e m w) = None"
    using that o unfolding h by simp
  show "user_states (snd (handle_messages e m w)) = user_states w"
    if "fst (handle_messages e m w) \<noteq> None"
    using that o unfolding h by simp
  show "user_data (snd (handle_messages e m w)) =
          (user_data w)(?u \<mapsto> d(''additional_info'' \<mapsto> ?b))"
    if "fst (handle_messages e m w) \<noteq> None"
    using that o unfolding h by simp
qed

theorem awaiting_image_text_classified_witness:
  "user_states (awaiting_image two_answers) 7 = Some STATE_IMAGE \<and>
   user_data (awaiting_image two_answers) 7 = Some two_answers \<and>
   two_answers ''image_id'' = None \<and> two_answers ''image_url'' = None \<and>
   lower ''https://x/y.png'' \<notin> {''no'', ''none'', ''n''} \<and>
   startswith (lower ''https://x/y.png'') [''http://'', ''https://''] \<and>
   take 2 (calls (snd (handle_messages env_ok (text_from_ann ''https://x/y.png'')
                         (awaiting_image two_answers)))) =
     [(RequestsGet ''https://x/y.png'', None),
      (SendPhoto 1 (BytesIO ''png'')
         (admin_message_text ann two_answers False @
          ''\<newline>\<newline>Image URL: https://x/y.png''),
       None)] \<and>
   lower ''just a hunch'' \<notin> {''no'', ''none'', ''n''} \<and>
   \<not> startswith (lower ''just a hunch'') [''http://'', ''https://''] \<and>
   calls (snd (handle_messages env_ok (text_from_ann ''just a hunch'')
                 (awaiting_image two_answers))) =
     [(SendMessage 1
         (admin_message_text ann two_answers False @
          ''\<newline>\<newline>Additional Info: just a hunch'')
         None None, None),
      (SendMessage 7 submitted_text (Some sendspark_markup) None, None)]"
proof -
  let ?u = "text_from_ann ''https://x/y.png''"
  let ?h = "text_from_ann ''just a hunch''"
  let ?w = "awaiting_image two_answers"
  have m: "from_user (text_from_ann b) = ann" "user_id ann = 7"
    "message_text (text_from_ann b) = b" "chat_id (text_from_ann b) = 7" for b
    by (simp_all add: text_from_ann_def ann_def)
  have w: "user_states ?w 7 = Some STATE_IMAGE" "user_data ?w 7 = Some two_answers"
    "calls ?w = []"
    by (simp_all add: awaiting_image_def)
  have e: "ADMIN_USER_ID env_ok = 1" "bot_result env_ok k c = None"
    "requests_get env_ok b = Inr \<lparr>status_code = 200, content = ''png''\<rparr>" for k c b
    by (simp_all add: env_ok_def)
  have f: "two_answers ''image_id'' = None" "two_answers ''image_url'' = None"
    by (simp_all add: two_answers_def)
  have ku: "lower ''https://x/y.png'' \<notin> {''no'', ''none'', ''n''}"
    and su: "startswith (lower ''https://x/y.png'') [''http://'', ''https://'']"
    and kh: "lower ''just a hunch'' \<notin> {''no'', ''none'', ''n''}"
    and sh: "\<not> startswith (lower ''just a hunch'') [''http://'', ''https://'']"
    by (simp_all add: lower_def lower_char_def startswith_def)
  have st: "user_states ?w (user_id (from_user (text_from_ann b))) = Some STATE_IMAGE"
    and d: "user_data ?w (user_id (from_user (text_from_ann b))) = Some two_answers" for b
    by (simp_all add: m w)
  have ku': "lower (message_text ?u) \<notin> {''no'', ''none'', ''n''}"
    unfolding m by (rule ku)
  have kh': "lower (message_text ?h) \<notin> {''no'', ''none'', ''n''}"
    unfolding m by (rule kh)
  note cu = awaiting_image_text_classified [OF st ku' d f(1), where e = env_ok]
  note ch = awaiting_image_text_classified [OF st kh' d f(1), where e = env_ok]
  have ru: "take 2 (calls (snd (handle_messages env_ok ?u ?w))) =
     [(RequestsGet ''https://x/y.png'', None),
      (SendPhoto 1 (BytesIO ''png'')
         (admin_message_text ann two_answers False @
          ''\<newline>\<newline>Image URL: https://x/y.png''),
       None)]"
    using cu su by (simp add: m w e numeral_2_eq_2)
  have rh: "calls (snd (handle_messages env_ok ?h ?w)) =
     [(SendMessage 1
         (admin_message_text ann two_answers False @
          ''\<newline>\<newline>Additional Info: just a hunch'')
         None None, None),
      (SendMessage 7 submitted_text (Some sendspark_markup) None, None)]"
    using ch sh f(2) by (simp add: m w e)
  show ?thesis using w(1,2) f ku su kh sh ru rh by blast
qed

text \<open>
  \<open>HTTP://X\<close> starts with neither \<open>http://\<close> nor \<open>https://\<close> and is no skip keyword,
  yet it is downloaded as an image URL. After a refused \<open>send_photo\<close> the kept photo
  reference is sent in answer to a link, which is not requested, and in answer to other
  text; after a refused confirmation the kept image URL is downloaded and sent in
  answer to other text.
\<close>

theorem image_step_classification_counterexample:
  "\<not> startswith ''HTTP://X'' [''http://'', ''https://''] \<and>
   lower ''HTTP://X'' \<notin> {''no'', ''none'', ''n''} \<and>
   calls (snd (handle_messages env_ok (text_from_ann ''HTTP://X'')
                 (awaiting_image two_answers))) =
     [(RequestsGet ''HTTP://X'', None),
      (SendPhoto 1 (BytesIO ''png'')
         (admin_message_text ann (two_answers(''image_url'' \<mapsto> ''HTTP://X'')) False @
          ''\<newline>\<newline>Image URL: HTTP://X''), None),
      (SendMessage 7 submitted_text (Some sendspark_markup) None, None)] \<and>
   user_states (run initial_world refused_photo_updates) 7 = Some STATE_IMAGE \<and>
   startswith ''https://x/y.png'' [''http://'', ''https://''] \<and>
   drop 4 (calls (snd (handle_messages env_ok (text_from_ann ''https://x/y.png'')
                         (run initial_world refused_photo_updates)))) =
     [(SendPhoto 1 (FileId ''large'')
         (admin_message_text ann
            (two_answers(''image_id'' \<mapsto> ''large'', ''image_url'' \<mapsto> ''https://x/y.png''))
            False),
       None),
      (SendMessage 7 submitted_text (Some sendspark_markup) None, None)] \<and>
   \<not> startswith (lower ''just a hunch'') [''http://'', ''https://''] \<and>
   lower ''just a hunch'' \<notin> {''no'', ''none'', ''n''} \<and>
   drop 4 (calls (snd (handle_messages env_ok (text_from_ann ''just a hunch'')
                         (run initial_world refused_photo_updates)))) =
     [(SendPhoto 1 (FileId ''large'')
         (admin_message_text ann
            (two_answers(''image_id'' \<mapsto> ''large'', ''additional_info'' \<mapsto> ''just a hunch''))
            True),
       None),
      (SendMessage 7 submitted_text (Some sendspark_markup) None, None)] \<and>
   user_states (run initial_world unconfirmed_url_updates) 7 = Some STATE_IMAGE \<and>
   drop 6 (calls (snd (handle_messages env_ok (text_from_ann ''just a hunch'')
                         (run initial_world unconfirmed_url_updates)))) =
     [(RequestsGet ''http://x/y.png'', None),
      (SendPhoto 1 (BytesIO ''png'')
         (admin_message_text ann
            (two_answers(''image_url'' \<mapsto> ''http://x/y.png'',
               ''additional_info'' \<mapsto> ''just a hunch''))
            True @
          ''\<newline>\<newline>Image URL: http://x/y.png''),
       None),
      (SendMessage 7 submitted_text (Some sendspark_markup) None, None)]"
  unfolding run_refused_photo_updates run_unconfirmed_url_updates
  by (simp add: handle_messages_def set_user_data_def lower_def lower_char_def startswith_def
      finalize_question_def notify_admin_def send_url_image_def download_and_send_def
      bot_call_def and_then_def clear_user_def Let_def
      awaiting_image_def env_ok_def text_from_ann_def ann_def two_answers_def
      STATE_IMAGE_def STATE_QUESTION_def STATE_DESCRIPTION_def)

end
